theory Spec2Isabelle
  imports Complex_Main
begin

section \<open>Python values\<close>

text \<open>
  The guardrail engine works on dynamically typed request and output data. A value is
  one of the JSON-like Python values, an attributed record \<open>PObj cls attrs\<close> standing
  for an instance of the dataclass \<open>cls\<close> (its instance attributes in order, as in the
  instance's \<open>__dict__\<close>), or an opaque runtime object \<open>POpaque cls ident\<close> (a bound
  method, a type object) of class \<open>cls\<close> that the engine can reach through
  \<open>getattr\<close> but never inspects; \<open>ident\<close> tells such objects apart.

  A Python \<open>str\<close> is a list of characters; a character of the model stands for the
  code point of the same number, so the model covers strings over U+0000..U+00FF.
  A Python \<open>int\<close> is unbounded. A finite Python \<open>float\<close> is represented by the
  rational number it denotes; the infinities and NaN are not among the values. A \<open>dict\<close> keeps its insertion order and has string keys.
\<close>

datatype pyval =
    PNone
  | PBool bool
  | PInt int
  | PFloat rat
  | PStr string
  | PList "pyval list"
  | PDict "(string \<times> pyval) list"
  | PObj string "(string \<times> pyval) list"
  | POpaque string string

section \<open>Python strings\<close>

text \<open>
  \<open>str.isspace\<close>, which decides what \<open>str.strip\<close> removes and what the regular
  expression class \<open>\s\<close> matches.
\<close>

definition py_isspace :: "char \<Rightarrow> bool" where
  "py_isspace c = (c \<in> set [CHR 0x09, CHR 0x0A, CHR 0x0B, CHR 0x0C, CHR 0x0D, CHR 0x1C,
     CHR 0x1D, CHR 0x1E, CHR 0x1F, CHR 0x20, CHR 0x85, CHR 0xA0])"

definition py_strip :: "string \<Rightarrow> string" where
  "py_strip s = rev (dropWhile py_isspace (rev (dropWhile py_isspace s)))"

text \<open>\<open>str.lower\<close>; the upper-case letters below U+0100 are A..Z and U+00C0..U+00DE without U+00D7.\<close>

definition upper_chars :: "char list" where
  "upper_chars =
      ''ABCDEFGHIJKLMNOPQRSTUVWXYZ'' @ [CHR 0xC0, CHR 0xC1, CHR 0xC2, CHR 0xC3, CHR 0xC4,
      CHR 0xC5, CHR 0xC6, CHR 0xC7, CHR 0xC8, CHR 0xC9, CHR 0xCA, CHR 0xCB, CHR 0xCC, CHR
      0xCD, CHR 0xCE, CHR 0xCF, CHR 0xD0, CHR 0xD1, CHR 0xD2, CHR 0xD3, CHR 0xD4, CHR
      0xD5, CHR 0xD6, CHR 0xD8, CHR 0xD9, CHR 0xDA, CHR 0xDB, CHR 0xDC, CHR 0xDD, CHR
      0xDE]"

definition lower_chars :: "char list" where
  "lower_chars =
      ''abcdefghijklmnopqrstuvwxyz'' @ [CHR 0xE0, CHR 0xE1, CHR 0xE2, CHR 0xE3, CHR 0xE4,
      CHR 0xE5, CHR 0xE6, CHR 0xE7, CHR 0xE8, CHR 0xE9, CHR 0xEA, CHR 0xEB, CHR 0xEC, CHR
      0xED, CHR 0xEE, CHR 0xEF, CHR 0xF0, CHR 0xF1, CHR 0xF2, CHR 0xF3, CHR 0xF4, CHR
      0xF5, CHR 0xF6, CHR 0xF8, CHR 0xF9, CHR 0xFA, CHR 0xFB, CHR 0xFC, CHR 0xFD, CHR
      0xFE]"

definition py_lower_char :: "char \<Rightarrow> char" where
  "py_lower_char c = (case map_of (zip upper_chars lower_chars) c of None \<Rightarrow> c | Some d \<Rightarrow> d)"

definition py_lower :: "string \<Rightarrow> string" where
  "py_lower s = map py_lower_char s"

text \<open>\<open>s.split(sep)\<close> for a separator of one character.\<close>

fun py_split :: "char \<Rightarrow> string \<Rightarrow> string list" where
  "py_split sep [] = [[]]"
| "py_split sep (c # cs) =
     (if c = sep then [] # py_split sep cs
      else (case py_split sep cs of [] \<Rightarrow> [[c]] | x # xs \<Rightarrow> (c # x) # xs))"

text \<open>\<open>s.replace(" ", "_")\<close>.\<close>

definition py_replace_char :: "char \<Rightarrow> char \<Rightarrow> string \<Rightarrow> string" where
  "py_replace_char a b s = map (\<lambda>c. if c = a then b else c) s"

definition startswith :: "string \<Rightarrow> char \<Rightarrow> bool" where
  "startswith s c = (case s of [] \<Rightarrow> False | x # xs \<Rightarrow> x = c)"

definition endswith :: "string \<Rightarrow> char \<Rightarrow> bool" where
  "endswith s c = (case rev s of [] \<Rightarrow> False | x # xs \<Rightarrow> x = c)"

text \<open>The slice \<open>s[1:-1]\<close>.\<close>

definition slice_1_m1 :: "string \<Rightarrow> string" where
  "slice_1_m1 s = butlast (tl s)"

text \<open>
  The slice \<open>s[:n]\<close>: the first n characters, or all but the last \<open>-n\<close> when n is
  negative.
\<close>

definition slice_to :: "string \<Rightarrow> int \<Rightarrow> string" where
  "slice_to s n = (if 0 \<le> n then take (nat n) s else take (length s - nat (- n)) s)"

subsection \<open>Numbers from text\<close>

definition digit_val :: "char \<Rightarrow> nat option" where
  "digit_val c = map_of (zip ''0123456789'' [0, 1, 2, 3, 4, 5, 6, 7, 8, 9]) c"

text \<open>
  A run of decimal digits in which single underscores may stand between two digits
  (\<open>1_000\<close>). The result is the value and the number of digits read.
\<close>

fun digitpart_acc :: "nat \<Rightarrow> nat \<Rightarrow> string \<Rightarrow> (nat \<times> nat) option" where
  "digitpart_acc acc k [] = Some (acc, k)"
| "digitpart_acc acc k [c] =
     (case digit_val c of None \<Rightarrow> None | Some v \<Rightarrow> Some (10 * acc + v, Suc k))"
| "digitpart_acc acc k (c # d # ds) =
     (if c = CHR ''_''
      then (case digit_val d of None \<Rightarrow> None
            | Some v \<Rightarrow> digitpart_acc (10 * acc + v) (Suc k) ds)
      else (case digit_val c of None \<Rightarrow> None
            | Some v \<Rightarrow> digitpart_acc (10 * acc + v) (Suc k) (d # ds)))"

definition digitpart :: "string \<Rightarrow> (nat \<times> nat) option" where
  "digitpart s =
     (case s of [] \<Rightarrow> None
      | c # cs \<Rightarrow> (case digit_val c of None \<Rightarrow> None | Some v \<Rightarrow> digitpart_acc v 1 cs))"

text \<open>An optional sign in front: the sign and the rest of the text.\<close>

definition split_sign :: "string \<Rightarrow> bool \<times> string" where
  "split_sign s =
     (case s of [] \<Rightarrow> (False, [])
      | c # cs \<Rightarrow> if c = CHR ''-'' then (True, cs) else if c = CHR ''+'' then (False, cs)
                 else (False, s))"

text \<open>
  \<open>int(s)\<close>: \<open>None\<close> stands for \<open>ValueError\<close>. The limit that some Python versions
  put on the number of digits is not modelled.
\<close>

definition py_int :: "string \<Rightarrow> int option" where
  "py_int s =
     (case split_sign (py_strip s) of (neg, body) \<Rightarrow>
        (case digitpart body of None \<Rightarrow> None
         | Some (n, k) \<Rightarrow> Some (if neg then - int n else int n)))"

text \<open>
  \<open>float(s)\<close> for a text with a decimal point: an optional sign, digits with a point
  among them and at least one digit, an optional exponent. \<open>None\<close> stands for
  \<open>ValueError\<close>. The value is the rational number the text denotes; the rounding to a
  double and the overflow to infinity are not modelled.
\<close>

definition pow10 :: "int \<Rightarrow> rat" where
  "pow10 e = (if 0 \<le> e then 10 ^ nat e else 1 / 10 ^ nat (- e))"

definition float_mantissa :: "string \<Rightarrow> rat option" where
  "float_mantissa m =
     (let ip = takeWhile (\<lambda>c. c \<noteq> CHR ''.'') m; r = dropWhile (\<lambda>c. c \<noteq> CHR ''.'') m
      in case r of
           [] \<Rightarrow> (case digitpart ip of None \<Rightarrow> None | Some (n, k) \<Rightarrow> Some (of_nat n))
         | p # fp \<Rightarrow>
             if ip = [] \<and> fp = [] then None
             else (case (if ip = [] then Some (0, 0) else digitpart ip) of
                     None \<Rightarrow> None
                   | Some (n, k) \<Rightarrow>
                       (case (if fp = [] then Some (0, 0) else digitpart fp) of
                          None \<Rightarrow> None
                        | Some (f, j) \<Rightarrow> Some (of_nat n + of_nat f / 10 ^ j))))"

definition float_exponent :: "string \<Rightarrow> int option" where
  "float_exponent e =
     (case split_sign e of (neg, body) \<Rightarrow>
        (case digitpart body of None \<Rightarrow> None
         | Some (n, k) \<Rightarrow> Some (if neg then - int n else int n)))"

definition py_float :: "string \<Rightarrow> rat option" where
  "py_float s =
     (case split_sign (py_strip s) of (neg, body) \<Rightarrow>
        (let m = takeWhile (\<lambda>c. c \<noteq> CHR ''e'' \<and> c \<noteq> CHR ''E'') body;
             r = dropWhile (\<lambda>c. c \<noteq> CHR ''e'' \<and> c \<noteq> CHR ''E'') body
         in case float_mantissa m of
              None \<Rightarrow> None
            | Some v \<Rightarrow>
                (case r of
                   [] \<Rightarrow> Some (if neg then - v else v)
                 | x # e \<Rightarrow>
                     (case float_exponent e of None \<Rightarrow> None
                      | Some ex \<Rightarrow> Some ((if neg then - v else v) * pow10 ex)))))"

section \<open>The Python runtime\<close>

text \<open>
  Two behaviours of the interpreter are taken as parameters, since they depend on the
  classes of the values and on the interpreter's version:
  \<^item> \<open>class_attr v n\<close>: the attribute \<open>n\<close> that the class of \<open>v\<close> provides (a method,
    a property, a special attribute), if any;
  \<^item> \<open>str_of v\<close>: \<open>str(v)\<close> for a value that is not a string.
\<close>

record py_runtime =
  class_attr :: "pyval \<Rightarrow> string \<Rightarrow> pyval option"
  str_of :: "pyval \<Rightarrow> string"

text \<open>
  The names that classes give to their attributes are identifiers: a letter or an
  underscore, then letters, digits and underscores.
\<close>

definition is_ident_start :: "char \<Rightarrow> bool" where
  "is_ident_start c =
     (c \<in> set ''abcdefghijklmnopqrstuvwxyzABCDEFGHIJKLMNOPQRSTUVWXYZ_'')"

definition is_ident_char :: "char \<Rightarrow> bool" where
  "is_ident_char c = (is_ident_start c \<or> c \<in> set ''0123456789'')"

definition is_identifier :: "string \<Rightarrow> bool" where
  "is_identifier n =
     (case n of [] \<Rightarrow> False | c # cs \<Rightarrow> is_ident_start c \<and> list_all is_ident_char cs)"

text \<open>
  \<open>hasattr(v, n)\<close> and \<open>getattr(v, n)\<close>: \<open>None\<close> when the value has no such
  attribute. An instance attribute of a record comes first, then what the class
  provides.
\<close>

fun py_getattr :: "py_runtime \<Rightarrow> pyval \<Rightarrow> string \<Rightarrow> pyval option" where
  "py_getattr rt (PObj cls attrs) n =
     (case map_of attrs n of
        Some v \<Rightarrow> Some v
      | None \<Rightarrow> if is_identifier n then class_attr rt (PObj cls attrs) n else None)"
| "py_getattr rt v n = (if is_identifier n then class_attr rt v n else None)"

text \<open>\<open>str(v)\<close>.\<close>

fun py_str :: "py_runtime \<Rightarrow> pyval \<Rightarrow> string" where
  "py_str rt (PStr s) = s"
| "py_str rt v = str_of rt v"

text \<open>\<open>d.get(k)\<close>: the value at the key, \<open>None\<close> when the key is missing.\<close>

definition dict_get :: "(string \<times> pyval) list \<Rightarrow> string \<Rightarrow> pyval" where
  "dict_get kvs k = (case map_of kvs k of None \<Rightarrow> PNone | Some v \<Rightarrow> v)"

section \<open>Python operators on values\<close>

text \<open>The exceptions of the development, each with its message.\<close>

datatype py_error =
    RuleParseError string
  | TypeError string
  | AttributeError string

text \<open>The number a numeric value stands for; \<open>bool\<close> is a subclass of \<open>int\<close>.\<close>

fun num_of :: "pyval \<Rightarrow> rat option" where
  "num_of (PBool b) = Some (if b then 1 else 0)"
| "num_of (PInt i) = Some (of_int i)"
| "num_of (PFloat r) = Some r"
| "num_of v = None"

fun py_type_name :: "pyval \<Rightarrow> string" where
  "py_type_name PNone = ''NoneType''"
| "py_type_name (PBool b) = ''bool''"
| "py_type_name (PInt i) = ''int''"
| "py_type_name (PFloat r) = ''float''"
| "py_type_name (PStr s) = ''str''"
| "py_type_name (PList xs) = ''list''"
| "py_type_name (PDict kvs) = ''dict''"
| "py_type_name (PObj cls attrs) = cls"
| "py_type_name (POpaque cls ident) = cls"

text \<open>
  \<open>a == b\<close>. Numbers compare by value across \<open>bool\<close>, \<open>int\<close> and \<open>float\<close>; lists
  element by element; dicts key by key, whatever the order; dataclass instances of one
  class field by field; opaque objects by identity. \<open>a != b\<close> is its negation for all
  these classes.
\<close>

fun py_eq :: "pyval \<Rightarrow> pyval \<Rightarrow> bool" where
  "py_eq PNone b = (b = PNone)"
| "py_eq (PBool x) b = (num_of b = Some (if x then 1 else 0))"
| "py_eq (PInt i) b = (num_of b = Some (of_int i))"
| "py_eq (PFloat r) b = (num_of b = Some r)"
| "py_eq (PStr s) b = (b = PStr s)"
| "py_eq (PList xs) b =
     (case b of PList ys \<Rightarrow> list_all2 py_eq xs ys | _ \<Rightarrow> False)"
| "py_eq (PDict kvs) b =
     (case b of
        PDict kvs' \<Rightarrow>
          length kvs = length kvs' \<and>
          list_all (\<lambda>(k, v). case map_of kvs' k of None \<Rightarrow> False | Some w \<Rightarrow> py_eq v w) kvs
      | _ \<Rightarrow> False)"
| "py_eq (PObj cls attrs) b =
     (case b of
        PObj cls' attrs' \<Rightarrow>
          cls = cls' \<and> map fst attrs = map fst attrs' \<and>
          list_all2 py_eq (map snd attrs) (map snd attrs')
      | _ \<Rightarrow> False)"
| "py_eq (POpaque cls ident) b = (b = POpaque cls ident)"

text \<open>Strings are ordered by the code points of their characters.\<close>

fun str_lt :: "string \<Rightarrow> string \<Rightarrow> bool" where
  "str_lt [] [] = False"
| "str_lt [] (y # ys) = True"
| "str_lt (x # xs) [] = False"
| "str_lt (x # xs) (y # ys) =
     (if x = y then str_lt xs ys else (of_char x :: nat) < of_char y)"

datatype cmp_op = Lt | Le | Gt | Ge

fun cmp_op_text :: "cmp_op \<Rightarrow> string" where
  "cmp_op_text Lt = ''<''"
| "cmp_op_text Le = ''<=''"
| "cmp_op_text Gt = ''>''"
| "cmp_op_text Ge = ''>=''"

fun cmp_rat :: "cmp_op \<Rightarrow> rat \<Rightarrow> rat \<Rightarrow> bool" where
  "cmp_rat Lt a b = (a < b)"
| "cmp_rat Le a b = (a \<le> b)"
| "cmp_rat Gt a b = (b < a)"
| "cmp_rat Ge a b = (b \<le> a)"

fun cmp_str :: "cmp_op \<Rightarrow> string \<Rightarrow> string \<Rightarrow> bool" where
  "cmp_str Lt a b = str_lt a b"
| "cmp_str Le a b = (\<not> str_lt b a)"
| "cmp_str Gt a b = str_lt b a"
| "cmp_str Ge a b = (\<not> str_lt a b)"

fun cmp_nat :: "cmp_op \<Rightarrow> nat \<Rightarrow> nat \<Rightarrow> bool" where
  "cmp_nat Lt a b = (a < b)"
| "cmp_nat Le a b = (a \<le> b)"
| "cmp_nat Gt a b = (b < a)"
| "cmp_nat Ge a b = (b \<le> a)"

definition not_supported :: "cmp_op \<Rightarrow> pyval \<Rightarrow> pyval \<Rightarrow> py_error" where
  "not_supported op' a b =
     TypeError ([CHR 0x27] @ cmp_op_text op' @ [CHR 0x27] @
       '' not supported between instances of '' @
       [CHR 0x27] @ py_type_name a @ [CHR 0x27] @ '' and '' @
       [CHR 0x27] @ py_type_name b @ [CHR 0x27])"

text \<open>
  \<open>a < b\<close>, \<open>a <= b\<close>, \<open>a > b\<close>, \<open>a >= b\<close>: numbers with numbers, strings with
  strings, lists with lists (the first pair of unequal elements decides, else the
  lengths); \<open>TypeError\<close> for any other pair.
\<close>

fun py_cmp :: "cmp_op \<Rightarrow> pyval \<Rightarrow> pyval \<Rightarrow> py_error + bool" where
  "py_cmp op' (PStr a) (PStr b) = Inr (cmp_str op' a b)"
| "py_cmp op' (PList []) (PList ys) = Inr (cmp_nat op' 0 (length ys))"
| "py_cmp op' (PList (x # xs)) (PList []) = Inr (cmp_nat op' 1 0)"
| "py_cmp op' (PList (x # xs)) (PList (y # ys)) =
     (if py_eq x y then py_cmp op' (PList xs) (PList ys) else py_cmp op' x y)"
| "py_cmp op' a b =
     (case (num_of a, num_of b) of
        (Some x, Some y) \<Rightarrow> Inr (cmp_rat op' x y)
      | _ \<Rightarrow> Inl (not_supported op' a b))"

text \<open>Whether one string occurs in another.\<close>

definition is_prefix :: "string \<Rightarrow> string \<Rightarrow> bool" where
  "is_prefix xs ys = (take (length xs) ys = xs)"

fun is_substring :: "string \<Rightarrow> string \<Rightarrow> bool" where
  "is_substring xs [] = (xs = [])"
| "is_substring xs (y # ys) = (is_prefix xs (y # ys) \<or> is_substring xs ys)"

text \<open>Lists, dicts and dataclass instances that define \<open>__eq__\<close> are not hashable.\<close>

fun is_hashable :: "pyval \<Rightarrow> bool" where
  "is_hashable (PList xs) = False"
| "is_hashable (PDict kvs) = False"
| "is_hashable (PObj cls attrs) = False"
| "is_hashable v = True"

text \<open>\<open>a in b\<close>; \<open>a not in b\<close> is its negation and raises what it raises.\<close>

fun py_contains :: "pyval \<Rightarrow> pyval \<Rightarrow> py_error + bool" where
  "py_contains a (PStr s) =
     (case a of
        PStr x \<Rightarrow> Inr (is_substring x s)
      | _ \<Rightarrow> Inl (TypeError (''in <string> requires string as left operand, not '' @
                 py_type_name a)))"
| "py_contains a (PList xs) = Inr (list_ex (\<lambda>e. py_eq a e) xs)"
| "py_contains a (PDict kvs) =
     (if is_hashable a
      then Inr (case a of PStr k \<Rightarrow> map_of kvs k \<noteq> None | _ \<Rightarrow> False)
      else Inl (TypeError (''unhashable type: '' @ py_type_name a)))"
| "py_contains a b =
     Inl (TypeError (''argument of type '' @ py_type_name b @ '' is not iterable''))"

definition py_not_contains :: "pyval \<Rightarrow> pyval \<Rightarrow> py_error + bool" where
  "py_not_contains a b = (case py_contains a b of Inl e \<Rightarrow> Inl e | Inr r \<Rightarrow> Inr (\<not> r))"

section \<open>rules.py: the rule parser\<close>

subsection \<open>\<open>_get_nested_value\<close>\<close>

fun get_nested_parts :: "py_runtime \<Rightarrow> pyval \<Rightarrow> string list \<Rightarrow> pyval" where
  "get_nested_parts rt current [] = current"
| "get_nested_parts rt current (part # parts) =
     (case current of
        PDict kvs \<Rightarrow> get_nested_parts rt (dict_get kvs part) parts
      | _ \<Rightarrow> (case py_getattr rt current part of
                Some v \<Rightarrow> get_nested_parts rt v parts
              | None \<Rightarrow> PNone))"

definition get_nested_value :: "py_runtime \<Rightarrow> pyval \<Rightarrow> string \<Rightarrow> pyval" where
  "get_nested_value rt obj path = get_nested_parts rt obj (py_split (CHR ''.'') path)"

subsection \<open>\<open>_parse_literal\<close>\<close>

definition is_quoted :: "string \<Rightarrow> bool" where
  "is_quoted token =
     ((startswith token (CHR 0x27) \<and> endswith token (CHR 0x27)) \<or>
      (startswith token (CHR 0x22) \<and> endswith token (CHR 0x22)))"

definition is_bracketed :: "string \<Rightarrow> bool" where
  "is_bracketed token = (startswith token (CHR ''['') \<and> endswith token (CHR '']''))"

text \<open>The \<open>try\<close> block: the number a token reads as, \<open>None\<close> on \<open>ValueError\<close>.\<close>

definition parse_number :: "string \<Rightarrow> pyval option" where
  "parse_number token =
     (if CHR ''.'' \<in> set token then map_option PFloat (py_float token)
      else map_option PInt (py_int token))"

text \<open>The marker of a path reference, \<open>{"__path__": token}\<close>.\<close>

definition path_ref :: "string \<Rightarrow> pyval" where
  "path_ref token = PDict [(''__path__'', PStr token)]"

lemma length_dropWhile_le_aux: "length (dropWhile P xs) \<le> length xs"
  by (induction xs) auto

lemma length_py_strip: "length (py_strip s) \<le> length s"
proof -
  have "length (py_strip s) \<le> length (dropWhile py_isspace s)"
    unfolding py_strip_def using length_dropWhile_le_aux [of py_isspace "rev (dropWhile py_isspace s)"]
    by simp
  also have "\<dots> \<le> length s" by (rule length_dropWhile_le_aux)
  finally show ?thesis .
qed

lemma length_py_split_item: "item \<in> set (py_split sep s) \<Longrightarrow> length item \<le> length s"
proof (induction s arbitrary: item)
  case Nil
  then show ?case by simp
next
  case (Cons c cs)
  show ?case
  proof (cases "c = sep")
    case True
    with Cons show ?thesis by fastforce
  next
    case False
    show ?thesis
    proof (cases "py_split sep cs")
      case Nil
      with False Cons.prems show ?thesis by simp
    next
      case (Cons x xs)
      with False Cons.prems Cons.IH show ?thesis by fastforce
    qed
  qed
qed

lemma is_bracketed_length: "is_bracketed token \<Longrightarrow> length (slice_1_m1 token) < length token"
  by (cases token) (auto simp: is_bracketed_def startswith_def slice_1_m1_def)

function parse_literal :: "string \<Rightarrow> pyval" where
  "parse_literal tok =
     (if py_lower (py_strip tok) = ''none'' \<or> py_lower (py_strip tok) = ''null'' then PNone
      else if py_lower (py_strip tok) = ''true'' then PBool True
      else if py_lower (py_strip tok) = ''false'' then PBool False
      else (case parse_number (py_strip tok) of
              Some v \<Rightarrow> v
            | None \<Rightarrow>
                if is_quoted (py_strip tok) then PStr (slice_1_m1 (py_strip tok))
                else if is_bracketed (py_strip tok)
                then (if py_strip (slice_1_m1 (py_strip tok)) = [] then PList []
                      else PList (map (\<lambda>item. parse_literal (py_strip item))
                             (py_split (CHR '','') (py_strip (slice_1_m1 (py_strip tok))))))
                else path_ref (py_strip tok)))"
  by pat_completeness auto
termination
proof (relation "measure length", goal_cases)
  case 1
  show ?case by simp
next
  case (2 tok item)
  have "length (py_strip item) \<le> length item" by (rule length_py_strip)
  also have "\<dots> \<le> length (py_strip (slice_1_m1 (py_strip tok)))"
    using 2 by (auto intro: length_py_split_item)
  also have "\<dots> \<le> length (slice_1_m1 (py_strip tok))" by (rule length_py_strip)
  also have "\<dots> < length (py_strip tok)" using 2 by (auto intro: is_bracketed_length)
  also have "\<dots> \<le> length tok" by (rule length_py_strip)
  finally show ?case by simp
qed

declare parse_literal.simps [simp del]

subsection \<open>\<open>_tokenize_args\<close>\<close>

text \<open>The loop's variables: \<open>args\<close>, \<open>current\<close>, \<open>depth\<close> and \<open>in_string\<close>.\<close>

type_synonym tok_state = "string list \<times> string \<times> int \<times> char option"

fun tokenize_step :: "tok_state \<Rightarrow> char \<Rightarrow> tok_state" where
  "tokenize_step (args, current, depth, in_string) c =
     (if (c = CHR 0x22 \<or> c = CHR 0x27) \<and> in_string = None
        then (args, current @ [c], depth, Some c)
      else if in_string = Some c then (args, current @ [c], depth, None)
      else if in_string \<noteq> None then (args, current @ [c], depth, in_string)
      else if c = CHR ''['' then (args, current @ [c], depth + 1, in_string)
      else if c = CHR '']'' then (args, current @ [c], depth - 1, in_string)
      else if c = CHR '','' \<and> depth = 0 then (args @ [py_strip current], [], depth, in_string)
      else (args, current @ [c], depth, in_string))"

definition tokenize_args :: "string \<Rightarrow> string list" where
  "tokenize_args args_str =
     (case foldl tokenize_step ([], [], 0, None) args_str of
        (args, current, depth, in_string) \<Rightarrow>
          if py_strip current \<noteq> [] then args @ [py_strip current] else args)"

subsection \<open>\<open>_resolve_value\<close>\<close>

text \<open>\<open>isinstance(token, dict) and "__path__" in token\<close>, then \<open>token["__path__"]\<close>.\<close>

fun resolve_value :: "py_runtime \<Rightarrow> pyval \<Rightarrow> pyval \<Rightarrow> py_error + pyval" where
  "resolve_value rt (PDict kvs) context =
     (case map_of kvs ''__path__'' of
        None \<Rightarrow> Inr (PDict kvs)
      | Some (PStr path) \<Rightarrow> Inr (get_nested_value rt context path)
      | Some v \<Rightarrow> Inl (AttributeError ''split''))"
| "resolve_value rt token context = Inr token"

subsection \<open>\<open>_evaluate_comparison\<close>\<close>

definition evaluate_comparison ::
  "py_runtime \<Rightarrow> string \<Rightarrow> string \<Rightarrow> string \<Rightarrow> pyval \<Rightarrow> py_error + bool" where
  "evaluate_comparison rt left operator right context =
     (case resolve_value rt (parse_literal left) context of
        Inl e \<Rightarrow> Inl e
      | Inr left_val \<Rightarrow>
     (case resolve_value rt (parse_literal right) context of
        Inl e \<Rightarrow> Inl e
      | Inr right_val \<Rightarrow>
          if operator = ''=='' then Inr (py_eq left_val right_val)
          else if operator = ''!='' then Inr (\<not> py_eq left_val right_val)
          else if operator \<in> set [''>'', ''<'', ''>='', ''<='']
          then (if left_val = PNone \<or> right_val = PNone then Inr False
                else if operator = ''>'' then py_cmp Gt left_val right_val
                else if operator = ''<'' then py_cmp Lt left_val right_val
                else if operator = ''>='' then py_cmp Ge left_val right_val
                else py_cmp Le left_val right_val)
          else if operator = ''in''
          then (if right_val = PNone then Inr False else py_contains left_val right_val)
          else if operator = ''not_in''
          then (if right_val = PNone then Inr True else py_not_contains left_val right_val)
          else Inl (RuleParseError (''Unknown operator: '' @ operator))))"

subsection \<open>The registry and \<open>_evaluate_function\<close>\<close>

text \<open>
  The registry \<open>_rules\<close> maps a name to a rule function. A rule function is called with
  the resolved arguments in order; a call with the wrong number of arguments raises
  \<open>TypeError\<close>. \<open>register_rule\<close> adds entries at run time, so the evaluator takes the
  registry as it is at the time of the call.
\<close>

type_synonym rule_fn = "pyval list \<Rightarrow> py_error + bool"

type_synonym registry = "string \<Rightarrow> rule_fn option"

fun resolve_args :: "py_runtime \<Rightarrow> string list \<Rightarrow> pyval \<Rightarrow> py_error + pyval list" where
  "resolve_args rt [] context = Inr []"
| "resolve_args rt (token # tokens) context =
     (case resolve_value rt (parse_literal token) context of
        Inl e \<Rightarrow> Inl e
      | Inr resolved \<Rightarrow>
          (case resolve_args rt tokens context of
             Inl e \<Rightarrow> Inl e
           | Inr args \<Rightarrow> Inr (resolved # args)))"

definition evaluate_function ::
  "registry \<Rightarrow> py_runtime \<Rightarrow> string \<Rightarrow> string \<Rightarrow> pyval \<Rightarrow> py_error + bool" where
  "evaluate_function reg rt func_name args_str context =
     (case reg func_name of
        None \<Rightarrow> Inl (RuleParseError (''Unknown rule function: '' @ func_name))
      | Some rule_fn \<Rightarrow>
          (case resolve_args rt (tokenize_args args_str) context of
             Inl e \<Rightarrow> Inl e
           | Inr args \<Rightarrow>
               (case rule_fn args of
                  Inl (TypeError msg) \<Rightarrow>
                    Inl (RuleParseError (''Error calling '' @ func_name @ '': '' @ msg))
                | r \<Rightarrow> r)))"

subsection \<open>\<open>evaluate_rule\<close>\<close>

text \<open>The class \<open>\w\<close> of the regular expressions, on the characters below U+0100.\<close>

definition py_isword :: "char \<Rightarrow> bool" where
  "py_isword c =
     (c \<in> set ''0123456789ABCDEFGHIJKLMNOPQRSTUVWXYZ_abcdefghijklmnopqrstuvwxyz'' \<or>
      c \<in> set
        [CHR 0xAA, CHR 0xB2, CHR 0xB3, CHR 0xB5, CHR 0xB9, CHR 0xBA, CHR 0xBC, CHR 0xBD,
        CHR 0xBE, CHR 0xC0, CHR 0xC1, CHR 0xC2, CHR 0xC3, CHR 0xC4, CHR 0xC5, CHR 0xC6,
        CHR 0xC7, CHR 0xC8, CHR 0xC9, CHR 0xCA, CHR 0xCB, CHR 0xCC, CHR 0xCD, CHR 0xCE,
        CHR 0xCF, CHR 0xD0, CHR 0xD1, CHR 0xD2, CHR 0xD3, CHR 0xD4, CHR 0xD5, CHR 0xD6,
        CHR 0xD8, CHR 0xD9, CHR 0xDA, CHR 0xDB, CHR 0xDC, CHR 0xDD, CHR 0xDE, CHR 0xDF,
        CHR 0xE0, CHR 0xE1, CHR 0xE2, CHR 0xE3, CHR 0xE4, CHR 0xE5, CHR 0xE6, CHR 0xE7,
        CHR 0xE8, CHR 0xE9, CHR 0xEA, CHR 0xEB, CHR 0xEC, CHR 0xED, CHR 0xEE, CHR 0xEF,
        CHR 0xF0, CHR 0xF1, CHR 0xF2, CHR 0xF3, CHR 0xF4, CHR 0xF5, CHR 0xF6, CHR 0xF8,
        CHR 0xF9, CHR 0xFA, CHR 0xFB, CHR 0xFC, CHR 0xFD, CHR 0xFE, CHR 0xFF])"

text \<open>
  \<open>re.match(r"^(\w+)\s*\(\s*(.*)\s*\)$", rule, re.DOTALL)\<close> on a stripped text: the
  longest run of word characters, blanks, an opening parenthesis, and a closing
  parenthesis as the last character. The result is groups 1 and 2; the greedy \<open>\s*\<close>
  takes the blanks in front of group 2, the greedy \<open>.*\<close> leaves none at its end.
\<close>

definition func_match :: "string \<Rightarrow> (string \<times> string) option" where
  "func_match s =
     (let func_name = takeWhile py_isword s;
          r = dropWhile py_isspace (dropWhile py_isword s)
      in if func_name = [] then None
         else (case r of
                 [] \<Rightarrow> None
               | c # body \<Rightarrow>
                   if c = CHR ''('' \<and> body \<noteq> [] \<and> last body = CHR '')''
                   then Some (func_name, dropWhile py_isspace (butlast body))
                   else None))"

text \<open>
  \<open>re.match(r"^(.+?)\s*(==|!=|>=|<=|>|<|\bin\b|\bnot\s+in\b)\s*(.+)$", rule,
  re.IGNORECASE)\<close> on a stripped text. Without \<open>re.DOTALL\<close> the dot matches every
  character but the line feed.

  \<open>rest_group\<close>: what follows the operator, \<open>\s*(.+)$\<close>; the result is group 3.
\<close>

definition rest_group :: "string \<Rightarrow> string option" where
  "rest_group r =
     (let g = dropWhile py_isspace r
      in if g \<noteq> [] \<and> CHR 0x0A \<notin> set g then Some g else None)"

text \<open>A literal of lower-case letters or signs at the head of a text, whatever the case.\<close>

definition match_ci :: "string \<Rightarrow> string \<Rightarrow> string option" where
  "match_ci lit t =
     (if length lit \<le> length t \<and> py_lower (take (length lit) t) = lit
      then Some (drop (length lit) t) else None)"

text \<open>\<open>\b\<close> next to a word character: the neighbour on the other side is no word character.\<close>

definition boundary_before :: "char option \<Rightarrow> bool" where
  "boundary_before prev = (case prev of None \<Rightarrow> True | Some c \<Rightarrow> \<not> py_isword c)"

definition boundary_after :: "string \<Rightarrow> bool" where
  "boundary_after r = (case r of [] \<Rightarrow> True | c # cs \<Rightarrow> \<not> py_isword c)"

text \<open>One alternative made of signs, then the rest of the pattern.\<close>

definition sign_alt :: "string \<Rightarrow> string \<Rightarrow> (string \<times> string) option" where
  "sign_alt lit t =
     (case match_ci lit t of
        None \<Rightarrow> None
      | Some r \<Rightarrow> (case rest_group r of None \<Rightarrow> None | Some g \<Rightarrow> Some (lit, g)))"

text \<open>\<open>\bin\b\<close>, then the rest of the pattern. Group 2 is the text as it was matched.\<close>

definition in_alt :: "char option \<Rightarrow> string \<Rightarrow> (string \<times> string) option" where
  "in_alt prev t =
     (if \<not> boundary_before prev then None
      else (case match_ci ''in'' t of
              None \<Rightarrow> None
            | Some r \<Rightarrow>
                if \<not> boundary_after r then None
                else (case rest_group r of None \<Rightarrow> None | Some g \<Rightarrow> Some (take 2 t, g))))"

text \<open>\<open>\bnot\s+in\b\<close>, then the rest of the pattern.\<close>

definition not_in_alt :: "char option \<Rightarrow> string \<Rightarrow> (string \<times> string) option" where
  "not_in_alt prev t =
     (if \<not> boundary_before prev then None
      else (case match_ci ''not'' t of
              None \<Rightarrow> None
            | Some r \<Rightarrow>
                if takeWhile py_isspace r = [] then None
                else (case match_ci ''in'' (dropWhile py_isspace r) of
                        None \<Rightarrow> None
                      | Some r' \<Rightarrow>
                          if \<not> boundary_after r' then None
                          else (case rest_group r' of
                                  None \<Rightarrow> None
                                | Some g \<Rightarrow> Some (take (length t - length r') t, g)))))"

text \<open>The alternatives in the order of the pattern; the first that lets the rest match wins.\<close>

fun first_some :: "'a option list \<Rightarrow> 'a option" where
  "first_some [] = None"
| "first_some (None # xs) = first_some xs"
| "first_some (Some x # xs) = Some x"

definition try_ops :: "char option \<Rightarrow> string \<Rightarrow> (string \<times> string) option" where
  "try_ops prev t =
     first_some [sign_alt ''=='' t, sign_alt ''!='' t, sign_alt ''>='' t, sign_alt ''<='' t,
       sign_alt ''>'' t, sign_alt ''<'' t, in_alt prev t, not_in_alt prev t]"

text \<open>
  The lazy group 1 grows by one character at a time; for each length, the greedy
  \<open>\s*\<close> skips the blanks that follow and the operator is tried there. \<open>g1\<close> is
  group 1 so far (not empty), \<open>r\<close> the text after it.
\<close>

fun cmp_scan :: "string \<Rightarrow> string \<Rightarrow> (string \<times> string \<times> string) option" where
  "cmp_scan g1 [] = None"
| "cmp_scan g1 (c # cs) =
     (let ws = takeWhile py_isspace (c # cs);
          prev = (if ws = [] then last g1 else last ws)
      in case try_ops (Some prev) (dropWhile py_isspace (c # cs)) of
           Some (op', g3) \<Rightarrow> Some (g1, op', g3)
         | None \<Rightarrow> if c = CHR 0x0A then None else cmp_scan (g1 @ [c]) cs)"

definition comparison_match :: "string \<Rightarrow> (string \<times> string \<times> string) option" where
  "comparison_match s =
     (case s of [] \<Rightarrow> None | c # cs \<Rightarrow> if c = CHR 0x0A then None else cmp_scan [c] cs)"

definition evaluate_rule ::
  "registry \<Rightarrow> py_runtime \<Rightarrow> string \<Rightarrow> pyval \<Rightarrow> py_error + bool" where
  "evaluate_rule reg rt rule_text context =
     (case func_match (py_strip rule_text) of
        Some (func_name, args_str) \<Rightarrow> evaluate_function reg rt func_name args_str context
      | None \<Rightarrow>
          (case comparison_match (py_strip rule_text) of
             Some (g1, g2, g3) \<Rightarrow>
               evaluate_comparison rt (py_strip g1)
                 (py_replace_char (CHR '' '') (CHR ''_'') (py_lower (py_strip g2)))
                 (py_strip g3) context
           | None \<Rightarrow> Inl (RuleParseError (''Cannot parse rule: '' @ py_strip rule_text))))"

section \<open>rules.py: the built-in rules\<close>

text \<open>
  The message of the \<open>TypeError\<close> that a call with the wrong number of arguments
  raises, abbreviated.
\<close>

definition arity_error :: "string \<Rightarrow> py_error" where
  "arity_error fname = TypeError (fname @ ''() called with the wrong number of arguments'')"

fun max_length :: "py_runtime \<Rightarrow> rule_fn" where
  "max_length rt [v, limit] =
     (if v = PNone then Inr True
      else py_cmp Le (PInt (int (length (py_str rt v)))) limit)"
| "max_length rt args = Inl (arity_error ''max_length'')"

fun min_length :: "py_runtime \<Rightarrow> rule_fn" where
  "min_length rt [v, limit] =
     (if v = PNone then Inr False
      else py_cmp Ge (PInt (int (length (py_strip (py_str rt v))))) limit)"
| "min_length rt args = Inl (arity_error ''min_length'')"

fun required_value :: "pyval \<Rightarrow> bool" where
  "required_value PNone = False"
| "required_value (PStr s) = (py_strip s \<noteq> [])"
| "required_value (PList xs) = (xs \<noteq> [])"
| "required_value (PDict kvs) = (kvs \<noteq> [])"
| "required_value v = True"

fun required :: "rule_fn" where
  "required [v] = Inr (required_value v)"
| "required args = Inl (arity_error ''required'')"

fun valid_enum :: "rule_fn" where
  "valid_enum [v, allowed] = py_contains v allowed"
| "valid_enum args = Inl (arity_error ''valid_enum'')"

text \<open>\<open>context.tool_call_count\<close>, an attribute read.\<close>

definition attr_read :: "py_runtime \<Rightarrow> pyval \<Rightarrow> string \<Rightarrow> py_error + pyval" where
  "attr_read rt v n =
     (case py_getattr rt v n of
        None \<Rightarrow> Inl (AttributeError (py_type_name v @ '' object has no attribute '' @ n))
      | Some x \<Rightarrow> Inr x)"

fun max_tool_calls :: "py_runtime \<Rightarrow> rule_fn" where
  "max_tool_calls rt [context, limit] =
     (case attr_read rt context ''tool_call_count'' of
        Inl e \<Rightarrow> Inl e
      | Inr c \<Rightarrow> py_cmp Le c limit)"
| "max_tool_calls rt args = Inl (arity_error ''max_tool_calls'')"

fun max_iterations :: "py_runtime \<Rightarrow> rule_fn" where
  "max_iterations rt [context, limit] =
     (case attr_read rt context ''iteration_count'' of
        Inl e \<Rightarrow> Inl e
      | Inr c \<Rightarrow> py_cmp Le c limit)"
| "max_iterations rt args = Inl (arity_error ''max_iterations'')"

text \<open>
  The entries of the registry that this development models. \<open>valid_json\<close>,
  \<open>in_range\<close>, \<open>required_fields\<close>, \<open>matches_pattern\<close>, \<open>allowed_tools\<close> and
  \<open>timeout\<close> are left out; every property of the evaluator below is proved for an
  arbitrary registry.
\<close>

definition modelled_rules :: "py_runtime \<Rightarrow> registry" where
  "modelled_rules rt =
     map_of [(''max_length'', max_length rt), (''min_length'', min_length rt),
       (''required'', required), (''valid_enum'', valid_enum),
       (''max_tool_calls'', max_tool_calls rt), (''max_iterations'', max_iterations rt)]"

section \<open>models.py: GuardrailContext\<close>

text \<open>
  The dataclass \<open>GuardrailContext\<close>. \<open>start_time\<close> is the reading of the clock
  (seconds) when the context was created.
\<close>

record guardrail_context =
  agent :: string
  request :: pyval
  output' :: pyval
  tool_call_count :: int
  iteration_count :: int
  start_time :: rat
  tool_calls :: "string list"
  results :: "pyval list"

text \<open>\<open>GuardrailContext(agent=agent, request=request)\<close>: every other field takes its default.\<close>

definition create_context :: "rat \<Rightarrow> string \<Rightarrow> pyval \<Rightarrow> guardrail_context" where
  "create_context now a r =
     \<lparr>agent = a, request = r, output' = PNone, tool_call_count = 0, iteration_count = 0,
      start_time = now, tool_calls = [], results = []\<rparr>"

definition record_tool_call :: "string \<Rightarrow> guardrail_context \<Rightarrow> guardrail_context" where
  "record_tool_call tool_name c =
     c\<lparr>tool_call_count := tool_call_count c + 1, tool_calls := tool_calls c @ [tool_name]\<rparr>"

definition increment_iteration :: "guardrail_context \<Rightarrow> guardrail_context" where
  "increment_iteration c = c\<lparr>iteration_count := iteration_count c + 1\<rparr>"

text \<open>\<open>int((time.time() - self.start_time) * 1000)\<close>: \<open>int\<close> truncates towards zero.\<close>

definition py_trunc :: "rat \<Rightarrow> int" where
  "py_trunc x = (if 0 \<le> x then \<lfloor>x\<rfloor> else \<lceil>x\<rceil>)"

definition elapsed_ms :: "rat \<Rightarrow> guardrail_context \<Rightarrow> int" where
  "elapsed_ms now c = py_trunc ((now - start_time c) * 1000)"

text \<open>
  The methods of the class, as operations on a context. \<open>elapsed_ms\<close> and \<open>to_dict\<close>
  only read the context.
\<close>

datatype ctx_op = RecordToolCall string | IncrementIteration | ElapsedMs rat | ToDict rat

fun apply_ctx_op :: "ctx_op \<Rightarrow> guardrail_context \<Rightarrow> guardrail_context" where
  "apply_ctx_op (RecordToolCall n) c = record_tool_call n c"
| "apply_ctx_op IncrementIteration c = increment_iteration c"
| "apply_ctx_op (ElapsedMs now) c = c"
| "apply_ctx_op (ToDict now) c = c"

fun run_ctx_ops :: "ctx_op list \<Rightarrow> guardrail_context \<Rightarrow> guardrail_context" where
  "run_ctx_ops [] c = c"
| "run_ctx_ops (x # xs) c = run_ctx_ops xs (apply_ctx_op x c)"

fun is_record_tool_call :: "ctx_op \<Rightarrow> bool" where
  "is_record_tool_call (RecordToolCall n) = True"
| "is_record_tool_call x = False"

text \<open>A context as the value that a rule sees under the root \<open>context\<close>.\<close>

definition ctx_obj :: "guardrail_context \<Rightarrow> pyval" where
  "ctx_obj c =
     PObj ''GuardrailContext''
       [(''agent'', PStr (agent c)), (''request'', request c), (''output'', output' c),
        (''tool_call_count'', PInt (tool_call_count c)),
        (''iteration_count'', PInt (iteration_count c)),
        (''start_time'', PFloat (start_time c)),
        (''tool_calls'', PList (map PStr (tool_calls c))),
        (''results'', PList (results c))]"

section \<open>Objects with identity\<close>

text \<open>
  \<open>check_output\<close> changes dicts in place, so the values it works on carry the identity
  of their mutable parts: every list and every dict has an address, and two nodes with
  the same address are the same Python object. The leaves are immutable.
\<close>

type_synonym addr = nat

datatype atom = ANone | ABool bool | AInt int | AFloat rat | AStr string

datatype lval =
    LAtom atom
  | LList addr "lval list"
  | LDict addr "(string \<times> lval) list"

fun atom_val :: "atom \<Rightarrow> pyval" where
  "atom_val ANone = PNone"
| "atom_val (ABool b) = PBool b"
| "atom_val (AInt i) = PInt i"
| "atom_val (AFloat r) = PFloat r"
| "atom_val (AStr s) = PStr s"

text \<open>The value of an object graph, without the identities.\<close>

fun erase :: "lval \<Rightarrow> pyval" where
  "erase (LAtom a) = atom_val a"
| "erase (LList a xs) = PList (map erase xs)"
| "erase (LDict a kvs) = PDict (map (\<lambda>(k, v). (k, erase v)) kvs)"

text \<open>The addresses of the objects of a graph.\<close>

fun laddrs :: "lval \<Rightarrow> addr list" where
  "laddrs (LAtom a) = []"
| "laddrs (LList a xs) = a # concat (map laddrs xs)"
| "laddrs (LDict a kvs) = a # concat (map (\<lambda>(k, v). laddrs v) kvs)"

text \<open>The least address above all those of a list.\<close>

definition bound_of :: "addr list \<Rightarrow> addr" where
  "bound_of xs = fold (\<lambda>a m. max (Suc a) m) xs 0"

text \<open>
  \<open>copy.deepcopy\<close>: a copy of the graph in which every object is new. The object at
  address \<open>a\<close> is copied to the address \<open>base + a\<close>, so the copy shares exactly what
  the original shares; \<open>base\<close> lies above every address in use.
\<close>

fun deepcopy :: "addr \<Rightarrow> lval \<Rightarrow> lval" where
  "deepcopy base (LAtom a) = LAtom a"
| "deepcopy base (LList a xs) = LList (base + a) (map (deepcopy base) xs)"
| "deepcopy base (LDict a kvs) = LDict (base + a) (map (\<lambda>(k, v). (k, deepcopy base v)) kvs)"

text \<open>
  An assignment \<open>d[k] = v\<close> gives the dict at one address a new content. Every
  reference to that dict sees it: \<open>mutate a kvs t\<close> is the graph \<open>t\<close> after the dict at
  \<open>a\<close> has received the content \<open>kvs\<close>.
\<close>

fun mutate :: "addr \<Rightarrow> (string \<times> lval) list \<Rightarrow> lval \<Rightarrow> lval" where
  "mutate a c (LAtom x) = LAtom x"
| "mutate a c (LList b xs) = LList b (map (mutate a c) xs)"
| "mutate a c (LDict b kvs) =
     (if a = b then LDict b c else LDict b (map (\<lambda>(k, v). (k, mutate a c v)) kvs))"

type_synonym mutation = "addr \<times> (string \<times> lval) list"

fun apply_muts :: "mutation list \<Rightarrow> lval \<Rightarrow> lval" where
  "apply_muts [] t = t"
| "apply_muts ((a, c) # ms) t = apply_muts ms (mutate a c t)"

text \<open>\<open>d[k] = v\<close> on the content of a dict: the key keeps its place, a new key goes last.\<close>

fun dict_set :: "(string \<times> 'v) list \<Rightarrow> string \<Rightarrow> 'v \<Rightarrow> (string \<times> 'v) list" where
  "dict_set [] k v = [(k, v)]"
| "dict_set ((k', v') # kvs) k v =
     (if k' = k then (k, v) # kvs else (k', v') # dict_set kvs k v)"

section \<open>models.py: configuration, results, summary\<close>

record guardrail_config =
  name :: string
  stage :: string
  threat :: string
  detection :: string
  rule :: string
  response :: string
  enabled :: bool
  error_message :: "string option"
  fallback_value :: lval
  truncate_to :: "int option"
  suffix :: string

text \<open>\<open>__post_init__\<close>: the configurations that can be constructed.\<close>

definition valid_config :: "guardrail_config \<Rightarrow> bool" where
  "valid_config g =
     (stage g \<in> set [''input'', ''behavioral'', ''output''] \<and>
      threat g \<in> set [''cost'', ''quality'', ''scope'', ''security''] \<and>
      response g \<in> set [''block'', ''fallback'', ''truncate'', ''flag''] \<and>
      detection g \<in> set [''deterministic'', ''custom''] \<and>
      \<not> (response g = ''truncate'' \<and> truncate_to g = None))"

record guardrail_result =
  res_name :: string
  res_stage :: string
  res_threat :: string
  triggered :: bool
  res_response :: "string option"
  message :: "string option"
  details :: "(string \<times> lval) list"

record guardrail_summary =
  input_results :: "guardrail_result list"
  behavioral_results :: "guardrail_result list"
  output_results :: "guardrail_result list"
  blocked :: bool
  stage_blocked :: "string option"

definition empty_summary :: guardrail_summary where
  "empty_summary =
     \<lparr>input_results = [], behavioral_results = [], output_results = [], blocked = False,
      stage_blocked = None\<rparr>"

definition add_result :: "guardrail_result \<Rightarrow> guardrail_summary \<Rightarrow> guardrail_summary" where
  "add_result r s =
     (let s1 = (if res_stage r = ''input'' then s\<lparr>input_results := input_results s @ [r]\<rparr>
                else if res_stage r = ''behavioral''
                then s\<lparr>behavioral_results := behavioral_results s @ [r]\<rparr>
                else if res_stage r = ''output''
                then s\<lparr>output_results := output_results s @ [r]\<rparr>
                else s)
      in if triggered r \<and> res_response r = Some ''block''
         then s1\<lparr>blocked := True, stage_blocked := Some (res_stage r)\<rparr>
         else s1)"

text \<open>What a stage call raises: a block, or the error of an evaluation.\<close>

datatype engine_error =
    GuardrailBlockError string string string "(string \<times> lval) list"
  | Raised py_error

section \<open>engine.py: GuardrailEngine\<close>

text \<open>
  The engine: its configuration (per agent, per stage, the guardrails in order), the
  fail-open setting and the summary of the request. The registry of rules and the
  runtime are module state and are passed along.
\<close>

record engine =
  config :: "(string \<times> (string \<times> guardrail_config list) list) list"
  fail_open :: bool
  summary :: guardrail_summary

definition stage_get :: "(string \<times> guardrail_config list) list \<Rightarrow> string \<Rightarrow> guardrail_config list" where
  "stage_get d st = (case map_of d st of None \<Rightarrow> [] | Some gs \<Rightarrow> gs)"

definition get_guardrails :: "engine \<Rightarrow> string \<Rightarrow> string \<Rightarrow> guardrail_config list" where
  "get_guardrails e ag st =
     (case map_of (config e) ag of
        Some d \<Rightarrow> stage_get d st
      | None \<Rightarrow>
          (case map_of (config e) ''default'' of
             Some d \<Rightarrow> stage_get d st
           | None \<Rightarrow> []))"

fun error_text :: "py_error \<Rightarrow> string" where
  "error_text (RuleParseError m) = m"
| "error_text (TypeError m) = m"
| "error_text (AttributeError m) = m"

definition error_result :: "guardrail_config \<Rightarrow> string \<Rightarrow> guardrail_result" where
  "error_result g msg =
     \<lparr>res_name = name g, res_stage = stage g, res_threat = threat g, triggered = False,
      res_response = None, message = Some msg, details = []\<rparr>"

definition evaluate_guardrail ::
  "registry \<Rightarrow> py_runtime \<Rightarrow> bool \<Rightarrow> guardrail_config \<Rightarrow> pyval \<Rightarrow> py_error + guardrail_result" where
  "evaluate_guardrail reg rt fo g context =
     (case evaluate_rule reg rt (rule g) context of
        Inr passed \<Rightarrow>
          Inr \<lparr>res_name = name g, res_stage = stage g, res_threat = threat g,
               triggered = (\<not> passed),
               res_response = (if \<not> passed then Some (response g) else None),
               message = (if \<not> passed then error_message g else None),
               details = []\<rparr>
      | Inl (RuleParseError m) \<Rightarrow>
          if fo then Inr (error_result g (''Rule parse error: '' @ m))
          else Inl (RuleParseError m)
      | Inl err \<Rightarrow>
          if fo then Inr (error_result g (''Evaluation error: '' @ error_text err))
          else Inl err)"

text \<open>\<open>g.error_message or f"Blocked by guardrail: {g.name}"\<close>.\<close>

definition block_message :: "guardrail_config \<Rightarrow> string" where
  "block_message g =
     (case error_message g of
        None \<Rightarrow> ''Blocked by guardrail: '' @ name g
      | Some m \<Rightarrow> if m = [] then ''Blocked by guardrail: '' @ name g else m)"

subsection \<open>\<open>check_input\<close>\<close>

text \<open>
  The loop over the guardrails, with the local \<open>results\<close> and the engine's summary as
  state. The summary is returned on every path, since the results recorded before an
  exception stay recorded.
\<close>

fun check_input_loop ::
  "registry \<Rightarrow> py_runtime \<Rightarrow> bool \<Rightarrow> pyval \<Rightarrow> guardrail_config list \<Rightarrow>
   guardrail_result list \<Rightarrow> guardrail_summary \<Rightarrow>
   (engine_error + guardrail_result list) \<times> guardrail_summary" where
  "check_input_loop reg rt fo req [] rs sm = (Inr rs, sm)"
| "check_input_loop reg rt fo req (g # gs) rs sm =
     (if \<not> enabled g then check_input_loop reg rt fo req gs rs sm
      else (case evaluate_guardrail reg rt fo g (PDict [(''request'', req)]) of
              Inl err \<Rightarrow> (Inl (Raised err), sm)
            | Inr r \<Rightarrow>
                if triggered r \<and> res_response r = Some ''block''
                then (Inl (GuardrailBlockError (name g) ''input'' (block_message g) (details r)),
                      add_result r sm)
                else check_input_loop reg rt fo req gs (rs @ [r]) (add_result r sm)))"

definition check_input ::
  "registry \<Rightarrow> py_runtime \<Rightarrow> engine \<Rightarrow> string \<Rightarrow> pyval \<Rightarrow>
   (engine_error + guardrail_result list) \<times> engine" where
  "check_input reg rt e ag req =
     (case check_input_loop reg rt (fail_open e) req (get_guardrails e ag ''input'') []
             (summary e) of
        (r, sm) \<Rightarrow> (r, e\<lparr>summary := sm\<rparr>))"

subsection \<open>\<open>check_output\<close>\<close>

text \<open>
  \<open>_extract_field_from_rule\<close>: \<open>re.search\<close> for the prefix followed by at least one
  character of \<open>[\w.]\<close>; the leftmost place wins and the group takes every such
  character that follows.
\<close>

definition is_field_char :: "char \<Rightarrow> bool" where
  "is_field_char c = (py_isword c \<or> c = CHR ''.'')"

fun extract_field_from_rule :: "string \<Rightarrow> string \<Rightarrow> string option" where
  "extract_field_from_rule [] prefix = None"
| "extract_field_from_rule (c # cs) prefix =
     (if is_prefix prefix (c # cs)
         \<and> takeWhile is_field_char (drop (length prefix) (c # cs)) \<noteq> []
      then Some (takeWhile is_field_char (drop (length prefix) (c # cs)))
      else extract_field_from_rule cs prefix)"

text \<open>\<open>_get_nested\<close>: through dicts only; \<open>None\<close> at a missing key or a value that is no dict.\<close>

fun get_nested :: "lval \<Rightarrow> string list \<Rightarrow> lval" where
  "get_nested current [] = current"
| "get_nested (LDict a kvs) (part # parts) =
     (case map_of kvs part of
        None \<Rightarrow> get_nested (LAtom ANone) parts
      | Some v \<Rightarrow> get_nested v parts)"
| "get_nested current (part # parts) = LAtom ANone"

text \<open>
  \<open>_set_nested\<close>, from the object \<open>current\<close> on: the assignments it makes, in order, the
  next free address, and the \<open>TypeError\<close> it raises when it comes to a value that is
  no dict (the assignments made before stay made). A missing key on the way receives a
  new empty dict.
\<close>

definition item_error :: py_error where
  "item_error = TypeError ''object does not support item assignment''"

fun set_nested ::
  "lval \<Rightarrow> string list \<Rightarrow> lval \<Rightarrow> addr \<Rightarrow> mutation list \<times> addr \<times> py_error option" where
  "set_nested (LDict a kvs) [part] v n = ([(a, dict_set kvs part v)], n, None)"
| "set_nested (LDict a kvs) (part # p # ps) v n =
     (case map_of kvs part of
        Some child \<Rightarrow> set_nested child (p # ps) v n
      | None \<Rightarrow>
          (case set_nested (LDict n []) (p # ps) v (Suc n) of
             (ms, n', err) \<Rightarrow> ((a, kvs @ [(part, LDict n [])]) # ms, n', err)))"
| "set_nested current parts v n = ([], n, Some item_error)"

text \<open>
  The state of one call of \<open>check_output\<close>: the object that the caller passed, the
  local \<open>modified_output\<close> and \<open>results\<close>, the engine's configuration and summary,
  and the next free address. An assignment to a dict reaches every reference to that
  dict, wherever it is held.
\<close>

record out_state =
  caller_output :: lval
  modified_output :: lval
  out_results :: "guardrail_result list"
  eng_config :: "(string \<times> (string \<times> guardrail_config list) list) list"
  eng_summary :: guardrail_summary
  next_addr :: addr

definition muts_result :: "mutation list \<Rightarrow> guardrail_result \<Rightarrow> guardrail_result" where
  "muts_result ms r = r\<lparr>details := map (\<lambda>(k, v). (k, apply_muts ms v)) (details r)\<rparr>"

definition muts_guardrail :: "mutation list \<Rightarrow> guardrail_config \<Rightarrow> guardrail_config" where
  "muts_guardrail ms g = g\<lparr>fallback_value := apply_muts ms (fallback_value g)\<rparr>"

definition muts_summary :: "mutation list \<Rightarrow> guardrail_summary \<Rightarrow> guardrail_summary" where
  "muts_summary ms sm =
     sm\<lparr>input_results := map (muts_result ms) (input_results sm),
        behavioral_results := map (muts_result ms) (behavioral_results sm),
        output_results := map (muts_result ms) (output_results sm)\<rparr>"

definition muts_state :: "mutation list \<Rightarrow> out_state \<Rightarrow> out_state" where
  "muts_state ms st =
     st\<lparr>caller_output := apply_muts ms (caller_output st),
        modified_output := apply_muts ms (modified_output st),
        out_results := map (muts_result ms) (out_results st),
        eng_config :=
          map (\<lambda>(ag, d). (ag, map (\<lambda>(sg, gs). (sg, map (muts_guardrail ms) gs)) d))
            (eng_config st),
        eng_summary := muts_summary ms (eng_summary st)\<rparr>"

text \<open>\<open>results.append(result)\<close> and \<open>self._summary.add_result(result)\<close>.\<close>

definition record_result :: "guardrail_result \<Rightarrow> out_state \<Rightarrow> out_state" where
  "record_result r st =
     st\<lparr>out_results := out_results st @ [r], eng_summary := add_result r (eng_summary st)\<rparr>"

definition set_detail :: "string \<Rightarrow> lval \<Rightarrow> guardrail_result \<Rightarrow> guardrail_result" where
  "set_detail k v r = r\<lparr>details := dict_set (details r) k v\<rparr>"

text \<open>
  \<open>_apply_truncate\<close> and \<open>_apply_fallback\<close>: the object that they return, the result
  with its details, the assignments made in the object graph, the next free address
  and the error raised, if any.
\<close>

type_synonym remedy = "lval \<times> guardrail_result \<times> mutation list \<times> addr \<times> py_error option"

definition truncate_root :: "lval \<Rightarrow> guardrail_config \<Rightarrow> guardrail_result \<Rightarrow> int \<Rightarrow> addr \<Rightarrow> remedy" where
  "truncate_root out g r tt n =
     (case out of
        LAtom (AStr s) \<Rightarrow>
          (LAtom (AStr (slice_to s tt @ suffix g)),
           set_detail ''truncated_to'' (LAtom (AInt tt))
             (set_detail ''original_length'' (LAtom (AInt (int (length s)))) r),
           [], n, None)
      | _ \<Rightarrow> (out, r, [], n, None))"

definition apply_truncate :: "lval \<Rightarrow> guardrail_config \<Rightarrow> guardrail_result \<Rightarrow> addr \<Rightarrow> remedy" where
  "apply_truncate out g r n =
     (case truncate_to g of
        None \<Rightarrow> (out, r, [], n, None)
      | Some tt \<Rightarrow>
          (case extract_field_from_rule (rule g) ''output.'' of
             None \<Rightarrow> truncate_root out g r tt n
           | Some field_path \<Rightarrow>
               (case out of
                  LDict a kvs \<Rightarrow>
                    (case get_nested out (py_split (CHR ''.'') field_path) of
                       LAtom (AStr s) \<Rightarrow>
                         (case set_nested out (py_split (CHR ''.'') field_path)
                                 (LAtom (AStr (slice_to s tt @ suffix g))) n of
                            (ms, n', Some err) \<Rightarrow>
                              (out, set_detail ''original_length'' (LAtom (AInt (int (length s)))) r,
                               ms, n', Some err)
                          | (ms, n', None) \<Rightarrow>
                              (out,
                               set_detail ''truncated_to'' (LAtom (AInt tt))
                                 (set_detail ''original_length''
                                    (LAtom (AInt (int (length s)))) r),
                               ms, n', None))
                     | _ \<Rightarrow> (out, r, [], n, None))
                | _ \<Rightarrow> truncate_root out g r tt n)))"

definition fallback_root :: "lval \<Rightarrow> guardrail_config \<Rightarrow> guardrail_result \<Rightarrow> addr \<Rightarrow> remedy" where
  "fallback_root out g r n =
     (fallback_value g,
      set_detail ''fallback_value'' (fallback_value g) (set_detail ''original_value'' out r),
      [], n, None)"

definition apply_fallback :: "lval \<Rightarrow> guardrail_config \<Rightarrow> guardrail_result \<Rightarrow> addr \<Rightarrow> remedy" where
  "apply_fallback out g r n =
     (case extract_field_from_rule (rule g) ''output.'' of
        None \<Rightarrow> fallback_root out g r n
      | Some field_path \<Rightarrow>
          (case out of
             LDict a kvs \<Rightarrow>
               (case set_nested out (py_split (CHR ''.'') field_path) (fallback_value g) n of
                  (ms, n', err) \<Rightarrow>
                    (out,
                     set_detail ''fallback_value'' (fallback_value g)
                       (set_detail ''original_value''
                          (get_nested out (py_split (CHR ''.'') field_path)) r),
                     ms, n', err))
           | _ \<Rightarrow> fallback_root out g r n))"

text \<open>
  What the loop does after a remedy: the result, which was appended before the remedy
  wrote its details, is recorded with them; the assignments reach the whole state.
\<close>

definition after_remedy :: "remedy \<Rightarrow> out_state \<Rightarrow> out_state" where
  "after_remedy rem st =
     (case rem of
        (out, r, ms, n, err) \<Rightarrow>
          muts_state ms (record_result r (st\<lparr>modified_output := out, next_addr := n\<rparr>)))"

definition remedy_muts :: "remedy \<Rightarrow> mutation list" where
  "remedy_muts rem = (case rem of (out, r, ms, n, err) \<Rightarrow> ms)"

definition remedy_error :: "remedy \<Rightarrow> py_error option" where
  "remedy_error rem = (case rem of (out, r, ms, n, err) \<Rightarrow> err)"

text \<open>The context of an output rule: \<open>{"request": request, "output": modified_output}\<close>.\<close>

definition output_context :: "pyval \<Rightarrow> lval \<Rightarrow> pyval" where
  "output_context req out = PDict [(''request'', req), (''output'', erase out)]"

function check_output_loop ::
  "registry \<Rightarrow> py_runtime \<Rightarrow> bool \<Rightarrow> pyval \<Rightarrow> guardrail_config list \<Rightarrow> out_state \<Rightarrow>
   engine_error option \<times> out_state" where
  "check_output_loop reg rt fo req [] st = (None, st)"
| "check_output_loop reg rt fo req (g # gs) st =
     (if \<not> enabled g then check_output_loop reg rt fo req gs st
      else (case evaluate_guardrail reg rt fo g (output_context req (modified_output st)) of
              Inl err \<Rightarrow> (Some (Raised err), st)
            | Inr r \<Rightarrow>
                if \<not> triggered r then check_output_loop reg rt fo req gs (record_result r st)
                else if res_response r = Some ''block''
                then (Some (GuardrailBlockError (name g) ''output'' (block_message g) (details r)),
                      record_result r st)
                else if res_response r = Some ''truncate''
                then (case remedy_error (apply_truncate (modified_output st) g r (next_addr st)) of
                        Some err \<Rightarrow>
                          (Some (Raised err),
                           after_remedy (apply_truncate (modified_output st) g r (next_addr st)) st)
                      | None \<Rightarrow>
                          check_output_loop reg rt fo req
                            (map (muts_guardrail
                                    (remedy_muts (apply_truncate (modified_output st) g r
                                       (next_addr st)))) gs)
                            (after_remedy (apply_truncate (modified_output st) g r (next_addr st))
                               st))
                else if res_response r = Some ''fallback''
                then (case remedy_error (apply_fallback (modified_output st) g r (next_addr st)) of
                        Some err \<Rightarrow>
                          (Some (Raised err),
                           after_remedy (apply_fallback (modified_output st) g r (next_addr st)) st)
                      | None \<Rightarrow>
                          check_output_loop reg rt fo req
                            (map (muts_guardrail
                                    (remedy_muts (apply_fallback (modified_output st) g r
                                       (next_addr st)))) gs)
                            (after_remedy (apply_fallback (modified_output st) g r (next_addr st))
                               st))
                else check_output_loop reg rt fo req gs (record_result r st)))"
  by pat_completeness auto
termination
  by (relation "measure (\<lambda>(reg, rt, fo, req, gs, st). length gs)") auto

text \<open>The addresses in use when \<open>check_output\<close> is called.\<close>

definition result_addrs :: "guardrail_result \<Rightarrow> addr list" where
  "result_addrs r = concat (map (\<lambda>(k, v). laddrs v) (details r))"

definition summary_addrs :: "guardrail_summary \<Rightarrow> addr list" where
  "summary_addrs sm =
     concat (map result_addrs (input_results sm @ behavioral_results sm @ output_results sm))"

definition config_addrs :: "(string \<times> (string \<times> guardrail_config list) list) list \<Rightarrow> addr list" where
  "config_addrs cfg =
     concat (map (\<lambda>(ag, d). concat (map (\<lambda>(sg, gs).
        concat (map (\<lambda>g. laddrs (fallback_value g)) gs)) d)) cfg)"

definition check_output ::
  "registry \<Rightarrow> py_runtime \<Rightarrow> engine \<Rightarrow> string \<Rightarrow> pyval \<Rightarrow> lval \<Rightarrow>
   (engine_error + lval \<times> guardrail_result list) \<times> lval \<times> engine" where
  "check_output reg rt e ag req out =
     (let base = bound_of (laddrs out @ config_addrs (config e) @ summary_addrs (summary e));
          st0 = \<lparr>caller_output = out, modified_output = deepcopy base out, out_results = [],
                 eng_config = config e, eng_summary = summary e,
                 next_addr = base + bound_of (laddrs out)\<rparr>
      in case check_output_loop reg rt (fail_open e) req (get_guardrails e ag ''output'') st0 of
           (err, st) \<Rightarrow>
             ((case err of
                 Some x \<Rightarrow> Inl x
               | None \<Rightarrow> Inr (modified_output st, out_results st)),
              caller_output st,
              e\<lparr>config := eng_config st, summary := eng_summary st\<rparr>))"

section \<open>Concrete inputs\<close>

text \<open>
  A runtime whose classes provide no attribute and whose \<open>str\<close> gives the empty text.
  It stands in at concrete inputs where the interpreter is asked nothing, or is asked
  for an attribute that no class of the values at hand provides.
\<close>

definition plain_runtime :: py_runtime where
  "plain_runtime = \<lparr>class_attr = (\<lambda>v n. None), str_of = (\<lambda>v. [])\<rparr>"

fun is_dict :: "pyval \<Rightarrow> bool" where
  "is_dict (PDict kvs) = True"
| "is_dict v = False"

text \<open>A numeric path segment: decimal digits, at least one.\<close>

definition is_numeric_segment :: "string \<Rightarrow> bool" where
  "is_numeric_segment s = (s \<noteq> [] \<and> list_all (\<lambda>c. c \<in> set ''0123456789'') s)"

section \<open>Notions used in the statements\<close>

text \<open>The two quote characters.\<close>

definition is_quote :: "char \<Rightarrow> bool" where
  "is_quote q = (q = CHR 0x27 \<or> q = CHR 0x22)"

text \<open>The tokens that \<open>_parse_literal\<close> reads as \<open>None\<close> or as a boolean.\<close>

definition is_keyword :: "string \<Rightarrow> bool" where
  "is_keyword t = (py_lower t \<in> set [''none'', ''null'', ''true'', ''false''])"

fun is_number :: "pyval \<Rightarrow> bool" where
  "is_number (PInt i) = True"
| "is_number (PFloat r) = True"
| "is_number v = False"

fun is_float :: "pyval \<Rightarrow> bool" where
  "is_float (PFloat r) = True"
| "is_float v = False"

text \<open>
  The value of one side of a comparison: the token parsed, then resolved. Resolving
  what \<open>_parse_literal\<close> returns never fails (lemma \<open>resolve_parse_literal\<close>).
\<close>

definition operand_value :: "py_runtime \<Rightarrow> string \<Rightarrow> pyval \<Rightarrow> pyval" where
  "operand_value rt t context =
     (case resolve_value rt (parse_literal t) context of Inl e \<Rightarrow> PNone | Inr v \<Rightarrow> v)"

text \<open>The head of the message of a result that stands for an error.\<close>

definition error_prefix :: "py_error \<Rightarrow> string" where
  "error_prefix err =
     (case err of RuleParseError m \<Rightarrow> ''Rule parse error: '' | _ \<Rightarrow> ''Evaluation error: '')"

text \<open>A guardrail and an engine to evaluate at concrete inputs.\<close>

definition example_guardrail ::
  "string \<Rightarrow> string \<Rightarrow> string \<Rightarrow> string \<Rightarrow> guardrail_config" where
  "example_guardrail n st rl resp =
     \<lparr>name = n, stage = st, threat = ''quality'', detection = ''deterministic'', rule = rl,
      response = resp, enabled = True, error_message = None, fallback_value = LAtom ANone,
      truncate_to = None, suffix = ''...''\<rparr>"

definition example_engine :: "bool \<Rightarrow> guardrail_config list \<Rightarrow> engine" where
  "example_engine fo gs =
     \<lparr>config = [(''test'', [(''input'', gs), (''output'', gs)])], fail_open = fo,
      summary = empty_summary\<rparr>"

section \<open>Notions for the output stage\<close>

text \<open>The addresses in the content of a dict, and in the contents that assignments bring.\<close>

definition content_addrs :: "(string \<times> lval) list \<Rightarrow> addr list" where
  "content_addrs c = concat (map (\<lambda>(k, v). laddrs v) c)"

definition muts_addrs :: "mutation list \<Rightarrow> addr set" where
  "muts_addrs ms = (\<Union>(a, c)\<in>set ms. set (content_addrs c))"

text \<open>
  What a remedy may do to the object graph \<open>w\<close> it is given, when \<open>F\<close> holds the
  addresses of the fallback value: its assignments go to objects of \<open>w\<close> or to new
  objects, and they bring in only objects of \<open>w\<close>, of \<open>F\<close> or new ones.
\<close>

definition remedy_ok :: "lval \<Rightarrow> addr set \<Rightarrow> addr \<Rightarrow> remedy \<Rightarrow> bool" where
  "remedy_ok w F n rem =
     (case rem of
        (w', r', ms, n', err) \<Rightarrow>
          n \<le> n' \<and> set (laddrs w') \<subseteq> set (laddrs w) \<union> F \<and>
          (\<forall>(a, c)\<in>set ms.
             (a \<in> set (laddrs w) \<or> n \<le> a) \<and>
             set (content_addrs c) \<subseteq> set (laddrs w) \<union> F \<union> {x. n \<le> x}))"

text \<open>
  The caller's object graph shares no object with the working copy nor with the
  fallback values of the guardrails still to come, and lies below the free addresses.
\<close>

definition separate :: "out_state \<Rightarrow> guardrail_config list \<Rightarrow> bool" where
  "separate st gs =
     (set (laddrs (modified_output st)) \<inter> set (laddrs (caller_output st)) = {} \<and>
      (\<forall>g\<in>set gs. set (laddrs (fallback_value g)) \<inter> set (laddrs (caller_output st)) = {}) \<and>
      (\<forall>a\<in>set (laddrs (caller_output st)). a < next_addr st))"

definition remedy_result :: "remedy \<Rightarrow> guardrail_result" where
  "remedy_result rem = (case rem of (out, r, ms, n, err) \<Rightarrow> r)"

definition any_triggered :: "out_state \<Rightarrow> bool" where
  "any_triggered st = list_ex triggered (out_results st)"

fun is_string_root :: "lval \<Rightarrow> bool" where
  "is_string_root (LAtom (AStr s)) = True"
| "is_string_root v = False"

text \<open>
  A configuration whose fallback value is a dict, and an output that holds that same
  dict: the object at address 7 is one object, referred to from both.
\<close>

definition shared_fallback :: lval where
  "shared_fallback = LDict 7 [(''text'', LAtom (AStr ''long text''))]"

definition aliasing_engine :: engine where
  "aliasing_engine =
     example_engine False
       [(example_guardrail ''fb'' ''output'' ''valid_enum(output.a, [1])'' ''fallback'')
          \<lparr>fallback_value := shared_fallback\<rparr>,
        (example_guardrail ''tr'' ''output'' ''max_length(output.a.text, 3)'' ''truncate'')
          \<lparr>truncate_to := Some 3\<rparr>]"

definition example_result :: guardrail_result where
  "example_result =
     \<lparr>res_name = ''g'', res_stage = ''output'', res_threat = ''quality'', triggered = True,
      res_response = Some ''truncate'', message = None, details = []\<rparr>"

section \<open>Properties of GuardrailContext\<close>

lemma run_ctx_ops_tool_call_count:
  "tool_call_count (run_ctx_ops ops c) =
     tool_call_count c + int (length (filter is_record_tool_call ops))"
proof (induction ops arbitrary: c)
  case Nil
  show ?case by simp
next
  case (Cons x xs)
  show ?case
    by (cases x) (simp_all add: Cons.IH record_tool_call_def increment_iteration_def)
qed

lemma run_ctx_ops_tool_calls_length:
  "int (length (tool_calls (run_ctx_ops ops c))) =
     int (length (tool_calls c)) + int (length (filter is_record_tool_call ops))"
proof (induction ops arbitrary: c)
  case Nil
  show ?case by simp
next
  case (Cons x xs)
  show ?case
    by (cases x) (simp_all add: Cons.IH record_tool_call_def increment_iteration_def)
qed

text \<open>
  Claim C10. Starting from a fresh context, after any sequence of operations that holds
  exactly k calls of \<open>record_tool_call\<close>, \<open>tool_call_count\<close> is k and equals the
  length of \<open>tool_calls\<close>; \<open>increment_iteration\<close> adds exactly 1 to
  \<open>iteration_count\<close>; and no operation decreases either counter.
\<close>

theorem C10_counters_monotonic:
  "tool_call_count (run_ctx_ops ops (create_context now a r)) =
     int (length (filter is_record_tool_call ops))
   \<and> tool_call_count (run_ctx_ops ops (create_context now a r)) =
     int (length (tool_calls (run_ctx_ops ops (create_context now a r))))
   \<and> iteration_count (increment_iteration c) = iteration_count c + 1
   \<and> tool_call_count c \<le> tool_call_count (apply_ctx_op x c)
   \<and> iteration_count c \<le> iteration_count (apply_ctx_op x c)"
proof -
  have a: "tool_call_count (run_ctx_ops ops (create_context now a r)) =
     int (length (filter is_record_tool_call ops))"
    by (simp add: run_ctx_ops_tool_call_count create_context_def)
  have b: "int (length (tool_calls (run_ctx_ops ops (create_context now a r)))) =
     int (length (filter is_record_tool_call ops))"
    by (simp add: run_ctx_ops_tool_calls_length create_context_def)
  have c: "iteration_count (increment_iteration c) = iteration_count c + 1"
    by (simp add: increment_iteration_def)
  have d: "tool_call_count c \<le> tool_call_count (apply_ctx_op x c)"
    by (cases x) (simp_all add: record_tool_call_def increment_iteration_def)
  have e: "iteration_count c \<le> iteration_count (apply_ctx_op x c)"
    by (cases x) (simp_all add: record_tool_call_def increment_iteration_def)
  from a b c d e show ?thesis by simp
qed

section \<open>Properties of the path resolver\<close>

lemma numeric_not_identifier: "is_numeric_segment k \<Longrightarrow> \<not> is_identifier k"
  by (cases k) (auto simp: is_numeric_segment_def is_identifier_def is_ident_start_def)

text \<open>
  Claim C2, as the code has it. The resolver is a total function: it returns a value
  for every root and every path. A segment applied to a dict gives the value at that
  key, absent when the key is missing. A segment applied to any other value gives the
  attribute of that name, and absent, whatever segments follow, when the value has no
  such attribute; a numeric segment names no attribute, so applied to a list it gives
  absent, whether or not the number is an index of the list.
\<close>

theorem C2_resolver_by_key_and_attribute:
  "get_nested_parts rt v [] = v
   \<and> get_nested_parts rt (PDict kvs) (k # ks) = get_nested_parts rt (dict_get kvs k) ks
   \<and> (map_of kvs k = None \<longrightarrow> get_nested_parts rt (PDict kvs) [k] = PNone)
   \<and> (\<not> is_dict v \<and> py_getattr rt v seg = Some x
        \<longrightarrow> get_nested_parts rt v (seg # rest) = get_nested_parts rt x rest)
   \<and> (\<not> is_dict v \<and> py_getattr rt v seg = None
        \<longrightarrow> get_nested_parts rt v (seg # rest) = PNone)
   \<and> (is_numeric_segment num \<longrightarrow> get_nested_parts rt (PList xs) (num # rest) = PNone)"
proof -
  have a: "\<not> is_dict v \<and> py_getattr rt v seg = Some x
        \<longrightarrow> get_nested_parts rt v (seg # rest) = get_nested_parts rt x rest"
    by (cases v) simp_all
  have b: "\<not> is_dict v \<and> py_getattr rt v seg = None
        \<longrightarrow> get_nested_parts rt v (seg # rest) = PNone"
    by (cases v) simp_all
  have c: "is_numeric_segment num \<longrightarrow> get_nested_parts rt (PList xs) (num # rest) = PNone"
    using numeric_not_identifier [of num] by simp
  from a b c show ?thesis by (simp add: dict_get_def)
qed

theorem C2_resolver_by_key_and_attribute_witness:
  "map_of [(''a'', PInt 1)] ''b'' = None
   \<and> get_nested_parts plain_runtime (PDict [(''a'', PInt 1)]) [''b''] = PNone
   \<and> \<not> is_dict (PObj ''GuardrailContext'' [(''tool_call_count'', PInt 2)])
   \<and> py_getattr plain_runtime (PObj ''GuardrailContext'' [(''tool_call_count'', PInt 2)])
         ''tool_call_count'' = Some (PInt 2)
   \<and> get_nested_parts plain_runtime (PObj ''GuardrailContext'' [(''tool_call_count'', PInt 2)])
         [''tool_call_count''] = PInt 2
   \<and> \<not> is_dict (PStr ''abc'')
   \<and> py_getattr plain_runtime (PStr ''abc'') ''x'' = None
   \<and> get_nested_parts plain_runtime (PStr ''abc'') [''x'', ''y''] = PNone
   \<and> is_numeric_segment ''1''
   \<and> get_nested_parts plain_runtime (PList [PInt 10, PInt 20]) [''1''] = PNone"
proof -
  have h1: "map_of [(''a'', PInt 1)] ''b'' = None" by simp
  have c1: "get_nested_parts plain_runtime (PDict [(''a'', PInt 1)]) [''b''] = PNone"
    using C2_resolver_by_key_and_attribute [of plain_runtime PNone "[(''a'', PInt 1)]" "''b''"] h1
    by blast
  let ?o = "PObj ''GuardrailContext'' [(''tool_call_count'', PInt 2)]"
  have h2: "\<not> is_dict ?o" "py_getattr plain_runtime ?o ''tool_call_count'' = Some (PInt 2)"
    by simp_all
  have c2: "get_nested_parts plain_runtime ?o [''tool_call_count''] = PInt 2"
    using C2_resolver_by_key_and_attribute
      [of plain_runtime ?o _ _ _ "''tool_call_count''" "PInt 2" "[]"] h2
    by simp
  have h3: "\<not> is_dict (PStr ''abc'')" "py_getattr plain_runtime (PStr ''abc'') ''x'' = None"
    by (simp_all add: plain_runtime_def)
  have c3: "get_nested_parts plain_runtime (PStr ''abc'') [''x'', ''y''] = PNone"
    using C2_resolver_by_key_and_attribute
      [of plain_runtime "PStr ''abc''" _ _ _ "''x''" _ "[''y'']"] h3
    by blast
  have h4: "is_numeric_segment ''1''" by (simp add: is_numeric_segment_def)
  have c4: "get_nested_parts plain_runtime (PList [PInt 10, PInt 20]) [''1''] = PNone"
    using C2_resolver_by_key_and_attribute
      [of plain_runtime _ _ _ _ _ _ "[]" "''1''" "[PInt 10, PInt 20]"] h4
    by blast
  from h1 c1 h2 c2 h3 c3 h4 c4 show ?thesis by blast
qed

text \<open>
  The claim as stated fails: in \<open>{"items": [10, 20]}\<close> the path \<open>items.0\<close> has the
  index 0 in bounds, and the resolver returns absent, not the element 10.
\<close>

theorem C2_numeric_segment_counterexample:
  "get_nested_value plain_runtime (PDict [(''items'', PList [PInt 10, PInt 20])]) ''items.0''
     = PNone
   \<and> [PInt 10, PInt 20] ! 0 = PInt 10"
  by (simp add: get_nested_value_def dict_get_def is_identifier_def is_ident_start_def)

section \<open>Properties of the built-in rules\<close>

lemma rat_nat_le_int: "(rat_of_nat m \<le> rat_of_int n) = (int m \<le> n)"
  by (metis of_int_le_iff of_int_of_nat_eq)

lemma rat_int_le_nat: "(rat_of_int n \<le> rat_of_nat m) = (n \<le> int m)"
  by (metis of_int_le_iff of_int_of_nat_eq)

text \<open>
  Claim C6, as the code has it. \<open>max_length(v, n)\<close> is true when \<open>v\<close> is \<open>None\<close>,
  whatever the limit; for every other value it tells whether the length of \<open>str(v)\<close>
  is at most \<open>n\<close>, so for a string whether its length is at most \<open>n\<close>.
  \<open>min_length(v, n)\<close> is false when \<open>v\<close> is \<open>None\<close>; for a string it tells whether
  the length of the string without its leading and trailing blanks is at least \<open>n\<close>.
\<close>

theorem C6_length_rules:
  "max_length rt [PNone, limit] = Inr True
   \<and> max_length rt [PStr s, PInt n] = Inr (int (length s) \<le> n)
   \<and> max_length rt [v, PInt n] = Inr (v = PNone \<or> int (length (py_str rt v)) \<le> n)
   \<and> min_length rt [PNone, limit] = Inr False
   \<and> min_length rt [PStr s, PInt n] = Inr (n \<le> int (length (py_strip s)))"
  by (simp add: rat_nat_le_int rat_int_le_nat)

text \<open>
  The claim as stated fails for \<open>min_length\<close>: the string of two blanks, \<open>a\<close> and two
  blanks has length 5, which is at least 3, and \<open>min_length\<close> returns false.
\<close>

theorem C6_min_length_counterexample:
  "min_length plain_runtime [PStr ''  a  '', PInt 3] = Inr False
   \<and> (3::int) \<le> int (length ''  a  '')"
  by (simp add: py_strip_def py_isspace_def)

section \<open>Properties of the literal parser\<close>

lemma py_strip_ends:
  "\<not> py_isspace a \<Longrightarrow> \<not> py_isspace b \<Longrightarrow> py_strip (a # s @ [b]) = a # s @ [b]"
  by (simp add: py_strip_def)

lemma quote_facts:
  "is_quote q \<Longrightarrow> \<not> py_isspace q \<and> digit_val q = None \<and> q \<noteq> CHR ''.'' \<and> q \<noteq> CHR ''e''
     \<and> q \<noteq> CHR ''E'' \<and> q \<noteq> CHR ''-'' \<and> q \<noteq> CHR ''+'' \<and> py_lower_char q = q"
  unfolding is_quote_def
  by (elim disjE; simp add: py_isspace_def digit_val_def py_lower_char_def upper_chars_def lower_chars_def)

lemma digitpart_quote: "is_quote q \<Longrightarrow> digitpart (q # s) = None"
  by (simp add: digitpart_def quote_facts)

lemma parse_number_quote:
  assumes "is_quote q"
  shows "parse_number (q # s @ [q]) = None"
proof -
  from assms have f: "\<not> py_isspace q" "q \<noteq> CHR ''.''" "q \<noteq> CHR ''e''" "q \<noteq> CHR ''E''"
    "q \<noteq> CHR ''-''" "q \<noteq> CHR ''+''"
    using quote_facts by auto
  have st: "py_strip (q # s @ [q]) = q # s @ [q]" using f by (simp add: py_strip_ends)
  have i: "py_int (q # s @ [q]) = None"
    using f assms by (simp add: py_int_def st split_sign_def digitpart_quote)
  have m: "float_mantissa (q # ms) = None" for ms
    using f assms by (auto simp: float_mantissa_def Let_def digitpart_quote split: list.splits)
  have fl: "py_float (q # s @ [q]) = None"
    using f by (simp add: py_float_def st split_sign_def Let_def m)
  show ?thesis by (simp add: parse_number_def i fl)
qed

lemma py_lower_quote: "is_quote q \<Longrightarrow> py_lower (q # s) = q # py_lower s"
  by (simp add: py_lower_def quote_facts)

lemma parse_literal_quoted:
  assumes "is_quote q"
  shows "parse_literal (q # s @ [q]) = PStr s"
proof -
  from assms have f: "\<not> py_isspace q" using quote_facts by auto
  have st: "py_strip (q # s @ [q]) = q # s @ [q]" using f by (simp add: py_strip_ends)
  have kw: "py_lower (q # s @ [q]) \<noteq> ''none''" "py_lower (q # s @ [q]) \<noteq> ''null''"
    "py_lower (q # s @ [q]) \<noteq> ''true''" "py_lower (q # s @ [q]) \<noteq> ''false''"
    using assms py_lower_quote [OF assms, of "s @ [q]"] by (auto simp: is_quote_def)
  have qd: "is_quoted (q # s @ [q])"
    using assms by (auto simp: is_quoted_def is_quote_def startswith_def endswith_def)
  show ?thesis
    by (subst parse_literal.simps) (simp add: st kw parse_number_quote [OF assms] qd slice_1_m1_def)
qed

lemma parse_number_kind:
  "parse_number t = Some v \<Longrightarrow> is_number v \<and> (is_float v = (CHR ''.'' \<in> set t))"
  by (auto simp: parse_number_def split: if_splits)

text \<open>
  Claim C9, as the code has it. The token is trimmed and classified in this order:
  \<open>none\<close> or \<open>null\<close> in any case gives \<open>None\<close>; \<open>true\<close> or \<open>false\<close> in any
  case gives a boolean; a text that \<open>int\<close> accepts (no decimal point in the token) or
  that \<open>float\<close> accepts (a decimal point in the token) gives that number, a float
  exactly when the token holds a decimal point; a text between two equal quote
  characters gives the text between them, unchanged, whatever it looks like; a bracketed
  token gives the list of the pieces of its inside, cut at every comma and each parsed
  in turn; any other token gives the path marker with the trimmed token.
\<close>

theorem C9_parse_literal_classes:
  "(py_lower (py_strip tok) = ''none'' \<or> py_lower (py_strip tok) = ''null''
      \<longrightarrow> parse_literal tok = PNone)
   \<and> (py_lower (py_strip tok) = ''true'' \<longrightarrow> parse_literal tok = PBool True)
   \<and> (py_lower (py_strip tok) = ''false'' \<longrightarrow> parse_literal tok = PBool False)
   \<and> (\<not> is_keyword (py_strip tok) \<and> parse_number (py_strip tok) = Some v
      \<longrightarrow> parse_literal tok = v \<and> is_number v \<and> is_float v = (CHR ''.'' \<in> set (py_strip tok)))
   \<and> (is_quote q \<longrightarrow> parse_literal (q # s @ [q]) = PStr s)
   \<and> (\<not> is_keyword (py_strip tok) \<and> parse_number (py_strip tok) = None
       \<and> \<not> is_quoted (py_strip tok) \<and> is_bracketed (py_strip tok)
      \<longrightarrow> parse_literal tok =
          (if py_strip (slice_1_m1 (py_strip tok)) = [] then PList []
           else PList (map (\<lambda>item. parse_literal (py_strip item))
                  (py_split (CHR '','') (py_strip (slice_1_m1 (py_strip tok)))))))
   \<and> (\<not> is_keyword (py_strip tok) \<and> parse_number (py_strip tok) = None
       \<and> \<not> is_quoted (py_strip tok) \<and> \<not> is_bracketed (py_strip tok)
      \<longrightarrow> parse_literal tok = path_ref (py_strip tok))"
proof -
  have a: "py_lower (py_strip tok) = ''none'' \<or> py_lower (py_strip tok) = ''null''
      \<longrightarrow> parse_literal tok = PNone"
    by (subst parse_literal.simps) simp
  have b: "py_lower (py_strip tok) = ''true'' \<longrightarrow> parse_literal tok = PBool True"
    by (subst parse_literal.simps) simp
  have c: "py_lower (py_strip tok) = ''false'' \<longrightarrow> parse_literal tok = PBool False"
    by (subst parse_literal.simps) simp
  have d: "\<not> is_keyword (py_strip tok) \<and> parse_number (py_strip tok) = Some v
      \<longrightarrow> parse_literal tok = v \<and> is_number v \<and> is_float v = (CHR ''.'' \<in> set (py_strip tok))"
    using parse_number_kind [of "py_strip tok" v]
    by (subst parse_literal.simps) (simp add: is_keyword_def)
  have e: "is_quote q \<longrightarrow> parse_literal (q # s @ [q]) = PStr s"
    by (simp add: parse_literal_quoted)
  have f: "\<not> is_keyword (py_strip tok) \<and> parse_number (py_strip tok) = None
       \<and> \<not> is_quoted (py_strip tok) \<and> is_bracketed (py_strip tok)
      \<longrightarrow> parse_literal tok =
          (if py_strip (slice_1_m1 (py_strip tok)) = [] then PList []
           else PList (map (\<lambda>item. parse_literal (py_strip item))
                  (py_split (CHR '','') (py_strip (slice_1_m1 (py_strip tok))))))"
    by (subst parse_literal.simps) (simp add: is_keyword_def)
  have g: "\<not> is_keyword (py_strip tok) \<and> parse_number (py_strip tok) = None
       \<and> \<not> is_quoted (py_strip tok) \<and> \<not> is_bracketed (py_strip tok)
      \<longrightarrow> parse_literal tok = path_ref (py_strip tok)"
    by (subst parse_literal.simps) (simp add: is_keyword_def)
  from a b c d e f g show ?thesis by blast
qed

theorem C9_parse_literal_classes_witness:
  "py_lower (py_strip '' None '') = ''none''
   \<and> parse_literal '' None '' = PNone
   \<and> py_lower (py_strip ''TRUE'') = ''true''
   \<and> parse_literal ''TRUE'' = PBool True
   \<and> py_lower (py_strip ''False'') = ''false''
   \<and> parse_literal ''False'' = PBool False
   \<and> \<not> is_keyword (py_strip ''1.5'')
   \<and> parse_number (py_strip ''1.5'') = Some (PFloat (3 / 2))
   \<and> parse_literal ''1.5'' = PFloat (3 / 2)
   \<and> is_quote (CHR 0x27)
   \<and> parse_literal (CHR 0x27 # ''123'' @ [CHR 0x27]) = PStr ''123''
   \<and> \<not> is_keyword (py_strip ''[1, x]'') \<and> parse_number (py_strip ''[1, x]'') = None
   \<and> \<not> is_quoted (py_strip ''[1, x]'') \<and> is_bracketed (py_strip ''[1, x]'')
   \<and> parse_literal ''[1, x]'' = PList [PInt 1, path_ref ''x'']
   \<and> \<not> is_keyword (py_strip ''a.b'') \<and> parse_number (py_strip ''a.b'') = None
   \<and> \<not> is_quoted (py_strip ''a.b'') \<and> \<not> is_bracketed (py_strip ''a.b'')
   \<and> parse_literal ''a.b'' = path_ref ''a.b''"
proof -
  have h1: "py_lower (py_strip '' None '') = ''none''" by code_simp
  have c1: "parse_literal '' None '' = PNone"
    using C9_parse_literal_classes [of "'' None ''"] h1 by blast
  have h2: "py_lower (py_strip ''TRUE'') = ''true''" by code_simp
  have c2: "parse_literal ''TRUE'' = PBool True"
    using C9_parse_literal_classes [of "''TRUE''"] h2 by blast
  have h3: "py_lower (py_strip ''False'') = ''false''" by code_simp
  have c3: "parse_literal ''False'' = PBool False"
    using C9_parse_literal_classes [of "''False''"] h3 by blast
  have h4: "\<not> is_keyword (py_strip ''1.5'')" by code_simp
  have h4': "parse_number (py_strip ''1.5'') = Some (PFloat (3 / 2))" by code_simp
  have c4: "parse_literal ''1.5'' = PFloat (3 / 2)"
    using C9_parse_literal_classes [of "''1.5''" "PFloat (3 / 2)"] h4 h4' by blast
  have h5: "is_quote (CHR 0x27)" by (simp add: is_quote_def)
  have c5: "parse_literal (CHR 0x27 # ''123'' @ [CHR 0x27]) = PStr ''123''"
    using C9_parse_literal_classes [of "[]" PNone "CHR 0x27" "''123''"] h5 by blast
  have h6: "\<not> is_keyword (py_strip ''[1, x]'')" "parse_number (py_strip ''[1, x]'') = None"
    "\<not> is_quoted (py_strip ''[1, x]'')" "is_bracketed (py_strip ''[1, x]'')"
    by code_simp+
  have c6: "parse_literal ''[1, x]'' = PList [PInt 1, path_ref ''x'']" by code_simp
  have h7: "\<not> is_keyword (py_strip ''a.b'')" "parse_number (py_strip ''a.b'') = None"
    "\<not> is_quoted (py_strip ''a.b'')" "\<not> is_bracketed (py_strip ''a.b'')"
    by code_simp+
  have s7: "py_strip ''a.b'' = ''a.b''" by code_simp
  have c7: "parse_literal ''a.b'' = path_ref ''a.b''"
    using C9_parse_literal_classes [of "''a.b''" PNone] h7 s7 by simp
  from h1 c1 h2 c2 h3 c3 h4 h4' c4 h5 c5 h6 c6 h7 c7 show ?thesis by blast
qed

text \<open>
  The claim as stated fails: the bracketed token \<open>[[3]]\<close> is read as a list that
  holds a list, not as a flat list.
\<close>

theorem C9_nested_list_counterexample:
  "is_bracketed ''[[3]]'' \<and> parse_literal ''[[3]]'' = PList [PList [PInt 3]]"
  by code_simp

section \<open>Properties of the comparison\<close>

lemma parse_literal_dict:
  "parse_literal t = PDict kvs \<Longrightarrow> kvs = [(''__path__'', PStr (py_strip t))]"
  by (subst (asm) parse_literal.simps)
    (auto simp: path_ref_def parse_number_def split: if_splits option.splits)

lemma resolve_parse_literal:
  "resolve_value rt (parse_literal t) context = Inr (operand_value rt t context)"
proof (cases "parse_literal t")
  case (PDict kvs)
  then have "kvs = [(''__path__'', PStr (py_strip t))]" by (rule parse_literal_dict)
  with PDict show ?thesis by (simp add: operand_value_def)
qed (simp_all add: operand_value_def)

text \<open>
  Claim C7. In a comparison, \<open>==\<close> and \<open>!=\<close> compare the two resolved values,
  \<open>None\<close> included; an ordering operator gives false, and raises nothing, when either
  side is \<open>None\<close>; \<open>in\<close> gives false and \<open>not in\<close> gives true when the right side is
  \<open>None\<close>; and for every pair of operands \<open>not in\<close> gives the negation of what \<open>in\<close>
  gives, raising exactly when \<open>in\<close> raises.
\<close>

theorem C7_comparison_semantics:
  "evaluate_comparison rt l ''=='' r c =
     Inr (py_eq (operand_value rt l c) (operand_value rt r c))
   \<and> evaluate_comparison rt l ''!='' r c =
     Inr (\<not> py_eq (operand_value rt l c) (operand_value rt r c))
   \<and> (operator \<in> set [''>'', ''<'', ''>='', ''<='']
        \<and> (operand_value rt l c = PNone \<or> operand_value rt r c = PNone)
        \<longrightarrow> evaluate_comparison rt l operator r c = Inr False)
   \<and> (operand_value rt r c = PNone \<longrightarrow>
         evaluate_comparison rt l ''in'' r c = Inr False
         \<and> evaluate_comparison rt l ''not_in'' r c = Inr True)
   \<and> evaluate_comparison rt l ''not_in'' r c =
       (case evaluate_comparison rt l ''in'' r c of Inl e \<Rightarrow> Inl e | Inr b \<Rightarrow> Inr (\<not> b))"
  by (auto simp: evaluate_comparison_def resolve_parse_literal py_not_contains_def
      split: sum.splits)

theorem C7_comparison_semantics_witness:
  "''>='' \<in> set [''>'', ''<'', ''>='', ''<='']
   \<and> operand_value plain_runtime ''output.missing'' (PDict [(''output'', PDict [])]) = PNone
   \<and> evaluate_comparison plain_runtime ''3'' ''>='' ''output.missing''
         (PDict [(''output'', PDict [])]) = Inr False
   \<and> evaluate_comparison plain_runtime ''3'' ''in'' ''output.missing''
         (PDict [(''output'', PDict [])]) = Inr False
   \<and> evaluate_comparison plain_runtime ''3'' ''not_in'' ''output.missing''
         (PDict [(''output'', PDict [])]) = Inr True"
proof -
  have h1: "''>='' \<in> set [''>'', ''<'', ''>='', ''<='']" by simp
  have h2: "operand_value plain_runtime ''output.missing'' (PDict [(''output'', PDict [])]) = PNone"
    by code_simp
  from C7_comparison_semantics
    [of plain_runtime "''3''" "''output.missing''" "PDict [(''output'', PDict [])]" "''>=''"]
    h1 h2
  show ?thesis by blast
qed

section \<open>Properties of the engine: input stage\<close>

lemma evaluate_rule_unknown:
  assumes "func_match (py_strip rule_text) = Some (func_name, args_str)" and "reg func_name = None"
  shows "evaluate_rule reg rt rule_text context =
     Inl (RuleParseError (''Unknown rule function: '' @ func_name))"
  using assms by (simp add: evaluate_rule_def evaluate_function_def)

text \<open>
  Claim C8. A rule in function-call form whose function name is not in the registry
  makes the evaluation raise a parse error that names the function. The evaluator has
  no fail-open setting, so the error is the same under both settings of the engine:
  without fail-open \<open>_evaluate_guardrail\<close> raises it, with fail-open it returns a
  result that is not triggered and whose message records the error.
\<close>

theorem C8_unknown_function:
  "func_match (py_strip (rule g)) = Some (func_name, args_str) \<and> reg func_name = None
     \<longrightarrow> evaluate_rule reg rt (rule g) context =
           Inl (RuleParseError (''Unknown rule function: '' @ func_name))
         \<and> evaluate_guardrail reg rt False g context =
           Inl (RuleParseError (''Unknown rule function: '' @ func_name))
         \<and> evaluate_guardrail reg rt True g context =
           Inr (error_result g (''Rule parse error: '' @ ''Unknown rule function: '' @ func_name))
         \<and> \<not> triggered (error_result g (''Rule parse error: '' @ ''Unknown rule function: '' @ func_name))
         \<and> message (error_result g (''Rule parse error: '' @ ''Unknown rule function: '' @ func_name))
             = Some (''Rule parse error: Unknown rule function: '' @ func_name)"
  by (simp add: evaluate_rule_unknown evaluate_guardrail_def error_result_def)

theorem C8_unknown_function_witness:
  "func_match (py_strip (rule (example_guardrail ''g'' ''input'' ''nosuch(request.text, 3)'' ''block'')))
     = Some (''nosuch'', ''request.text, 3'')
   \<and> modelled_rules plain_runtime ''nosuch'' = None
   \<and> evaluate_guardrail (modelled_rules plain_runtime) plain_runtime False
        (example_guardrail ''g'' ''input'' ''nosuch(request.text, 3)'' ''block'') (PDict [])
       = Inl (RuleParseError ''Unknown rule function: nosuch'')"
proof -
  have h1: "func_match (py_strip (rule (example_guardrail ''g'' ''input'' ''nosuch(request.text, 3)'' ''block'')))
     = Some (''nosuch'', ''request.text, 3'')" by code_simp
  have h2: "modelled_rules plain_runtime ''nosuch'' = None" by (simp add: modelled_rules_def)
  from C8_unknown_function [of "example_guardrail ''g'' ''input'' ''nosuch(request.text, 3)'' ''block''"
      "''nosuch''" "''request.text, 3''" "modelled_rules plain_runtime" plain_runtime "PDict []"] h1 h2
  show ?thesis by simp
qed

text \<open>
  Claim C5. When the first guardrail of the input stage of an agent is enabled and
  triggers with the response \<open>block\<close>, \<open>check_input\<close> raises a
  \<open>GuardrailBlockError\<close> with the name of that guardrail, and the summary has gained
  the result of that guardrail only: whatever guardrails follow are not evaluated and
  leave no result.
\<close>

theorem C5_block_short_circuit:
  assumes "get_guardrails e ag ''input'' = g1 # others"
    and "enabled g1" and "stage g1 = ''input''" and "response g1 = ''block''"
    and "evaluate_rule reg rt (rule g1) (PDict [(''request'', req)]) = Inr False"
  shows "check_input reg rt e ag req =
     (Inl (GuardrailBlockError (name g1) ''input'' (block_message g1) []),
      e\<lparr>summary := (summary e)
          \<lparr>input_results := input_results (summary e) @
             [\<lparr>res_name = name g1, res_stage = ''input'', res_threat = threat g1,
               triggered = True, res_response = Some ''block'', message = error_message g1,
               details = []\<rparr>],
           blocked := True, stage_blocked := Some ''input''\<rparr>\<rparr>)"
  using assms
  by (simp add: check_input_def evaluate_guardrail_def add_result_def)

theorem C5_block_short_circuit_witness:
  "check_input (modelled_rules plain_runtime) plain_runtime
     (example_engine False
        [example_guardrail ''first'' ''input'' ''required(request.text)'' ''block'',
         example_guardrail ''second'' ''input'' ''max_length(request.text, 5)'' ''flag''])
     ''test'' (PDict [])
   = (Inl (GuardrailBlockError ''first'' ''input'' ''Blocked by guardrail: first'' []),
      (example_engine False
        [example_guardrail ''first'' ''input'' ''required(request.text)'' ''block'',
         example_guardrail ''second'' ''input'' ''max_length(request.text, 5)'' ''flag''])
       \<lparr>summary := empty_summary
          \<lparr>input_results :=
             [\<lparr>res_name = ''first'', res_stage = ''input'', res_threat = ''quality'',
               triggered = True, res_response = Some ''block'', message = None,
               details = []\<rparr>],
           blocked := True, stage_blocked := Some ''input''\<rparr>\<rparr>)"
proof -
  let ?g1 = "example_guardrail ''first'' ''input'' ''required(request.text)'' ''block''"
  let ?g2 = "example_guardrail ''second'' ''input'' ''max_length(request.text, 5)'' ''flag''"
  let ?e = "example_engine False [?g1, ?g2]"
  have h1: "get_guardrails ?e ''test'' ''input'' = ?g1 # [?g2]"
    by (simp add: get_guardrails_def example_engine_def stage_get_def)
  have h2: "enabled ?g1" "stage ?g1 = ''input''" "response ?g1 = ''block''"
    by (simp_all add: example_guardrail_def)
  have h3: "evaluate_rule (modelled_rules plain_runtime) plain_runtime (rule ?g1)
      (PDict [(''request'', PDict [])]) = Inr False"
    by code_simp
  from C5_block_short_circuit [OF h1 h2 h3]
  show ?thesis
    by (simp add: example_guardrail_def example_engine_def block_message_def empty_summary_def)
qed

lemma evaluate_guardrail_error:
  "evaluate_rule reg rt (rule g) context = Inl err \<Longrightarrow>
   evaluate_guardrail reg rt fo g context =
     (if fo then Inr (error_result g (error_prefix err @ error_text err)) else Inl err)"
  by (cases err) (simp_all add: evaluate_guardrail_def error_prefix_def)

lemma evaluate_guardrail_fail_open:
  "evaluate_guardrail reg rt True g context \<noteq> Inl err"
  by (simp add: evaluate_guardrail_def split: sum.splits py_error.splits)

lemma check_input_loop_fail_open:
  "fst (check_input_loop reg rt True req gs rs sm) \<noteq> Inl (Raised err)"
proof (induction gs arbitrary: rs sm)
  case Nil
  show ?case by simp
next
  case (Cons g gs)
  show ?case
  proof (cases "evaluate_guardrail reg rt True g (PDict [(''request'', req)])")
    case (Inl e)
    then show ?thesis using evaluate_guardrail_fail_open by blast
  next
    case (Inr r)
    then show ?thesis using Cons.IH by simp
  qed
qed

text \<open>
  Claim C4, as the code has it. With fail-open, an error raised while one enabled
  guardrail is evaluated becomes a result that is not triggered and whose message
  records the error text, and the loop goes on with the guardrails that follow; the
  stage call then never raises an evaluation error. Without fail-open the error leaves
  the stage call at once.
\<close>

theorem C4_error_per_guardrail_under_fail_open:
  "(enabled g \<and> evaluate_rule reg rt (rule g) (PDict [(''request'', req)]) = Inl err
     \<longrightarrow> check_input_loop reg rt True req (g # gs) rs sm =
           check_input_loop reg rt True req gs
             (rs @ [error_result g (error_prefix err @ error_text err)])
             (add_result (error_result g (error_prefix err @ error_text err)) sm)
         \<and> \<not> triggered (error_result g (error_prefix err @ error_text err))
         \<and> message (error_result g (error_prefix err @ error_text err))
             = Some (error_prefix err @ error_text err)
         \<and> check_input_loop reg rt False req (g # gs) rs sm = (Inl (Raised err), sm))
   \<and> fst (check_input_loop reg rt True req gs rs sm) \<noteq> Inl (Raised err)"
  by (simp add: evaluate_guardrail_error check_input_loop_fail_open error_result_def)

theorem C4_error_per_guardrail_under_fail_open_witness:
  "enabled (example_guardrail ''bad'' ''input'' ''nosuch(request.text)'' ''flag'')
   \<and> evaluate_rule (modelled_rules plain_runtime) plain_runtime
         (rule (example_guardrail ''bad'' ''input'' ''nosuch(request.text)'' ''flag''))
         (PDict [(''request'', PDict [(''text'', PStr ''hi'')])])
       = Inl (RuleParseError ''Unknown rule function: nosuch'')
   \<and> check_input_loop (modelled_rules plain_runtime) plain_runtime True
         (PDict [(''text'', PStr ''hi'')])
         [example_guardrail ''bad'' ''input'' ''nosuch(request.text)'' ''flag'',
          example_guardrail ''good'' ''input'' ''required(request.text)'' ''flag''] []
         empty_summary
       = check_input_loop (modelled_rules plain_runtime) plain_runtime True
         (PDict [(''text'', PStr ''hi'')])
         [example_guardrail ''good'' ''input'' ''required(request.text)'' ''flag'']
         [error_result (example_guardrail ''bad'' ''input'' ''nosuch(request.text)'' ''flag'')
            ''Rule parse error: Unknown rule function: nosuch'']
         (add_result
            (error_result (example_guardrail ''bad'' ''input'' ''nosuch(request.text)'' ''flag'')
               ''Rule parse error: Unknown rule function: nosuch'')
            empty_summary)"
proof -
  let ?g = "example_guardrail ''bad'' ''input'' ''nosuch(request.text)'' ''flag''"
  have h1: "enabled ?g" by (simp add: example_guardrail_def)
  have h2: "evaluate_rule (modelled_rules plain_runtime) plain_runtime (rule ?g)
      (PDict [(''request'', PDict [(''text'', PStr ''hi'')])])
    = Inl (RuleParseError ''Unknown rule function: nosuch'')"
    by code_simp
  from C4_error_per_guardrail_under_fail_open
    [of ?g "modelled_rules plain_runtime" plain_runtime "PDict [(''text'', PStr ''hi'')]"
      "RuleParseError ''Unknown rule function: nosuch''"
      "[example_guardrail ''good'' ''input'' ''required(request.text)'' ''flag'']" "[]"
      empty_summary] h1 h2
  show ?thesis by (simp add: error_prefix_def)
qed

text \<open>
  The claim as stated fails: in an engine without fail-open, which is the default, the
  parse error of the first guardrail leaves \<open>check_input\<close>; the second guardrail is not
  evaluated and the summary holds no result.
\<close>

theorem C4_error_propagates_counterexample:
  "check_input (modelled_rules plain_runtime) plain_runtime
     (example_engine False
        [example_guardrail ''bad'' ''input'' ''nosuch(request.text)'' ''flag'',
         example_guardrail ''good'' ''input'' ''required(request.text)'' ''flag''])
     ''test'' (PDict [(''text'', PStr ''hi'')])
   = (Inl (Raised (RuleParseError ''Unknown rule function: nosuch'')),
      example_engine False
        [example_guardrail ''bad'' ''input'' ''nosuch(request.text)'' ''flag'',
         example_guardrail ''good'' ''input'' ''required(request.text)'' ''flag''])"
  by code_simp

section \<open>Properties of the engine: output stage\<close>

subsection \<open>Addresses and assignments\<close>

lemma content_addrs_set: "set (content_addrs c) = (\<Union>v\<in>snd ` set c. set (laddrs v))"
  by (force simp: content_addrs_def)

lemma laddrs_dict: "set (laddrs (LDict a kvs)) = insert a (set (content_addrs kvs))"
  by (simp add: content_addrs_def)

lemma mutate_id: "a \<notin> set (laddrs t) \<Longrightarrow> mutate a c t = t"
proof (induction t)
  case (LAtom x)
  show ?case by simp
next
  case (LList b xs)
  then have "map (mutate a c) xs = xs" by (auto intro: map_idI)
  then show ?case by simp
next
  case (LDict b kvs)
  have "map (\<lambda>(k, v). (k, mutate a c v)) kvs = kvs"
  proof (rule map_idI)
    fix p assume p: "p \<in> set kvs"
    obtain k v where kv: "p = (k, v)" by (cases p)
    with p LDict.prems have "a \<notin> set (laddrs v)" by auto
    with LDict.IH p kv have "mutate a c v = v" by auto
    with kv show "(case p of (k, v) \<Rightarrow> (k, mutate a c v)) = p" by simp
  qed
  with LDict.prems show ?case by simp
qed

lemma content_addrs_map_mutate:
  assumes "\<And>v. v \<in> snd ` set kvs \<Longrightarrow> set (laddrs (f v)) \<subseteq> set (laddrs v) \<union> B"
  shows "set (content_addrs (map (\<lambda>(k, v). (k, f v)) kvs)) \<subseteq> set (content_addrs kvs) \<union> B"
proof
  fix x assume "x \<in> set (content_addrs (map (\<lambda>(k, v). (k, f v)) kvs))"
  then obtain w where w: "w \<in> snd ` set (map (\<lambda>(k, v). (k, f v)) kvs)" and x: "x \<in> set (laddrs w)"
    unfolding content_addrs_set by blast
  from w obtain v where v: "v \<in> snd ` set kvs" and wv: "w = f v" by force
  from assms [OF v] x wv have "x \<in> set (laddrs v) \<union> B" by blast
  with v show "x \<in> set (content_addrs kvs) \<union> B" unfolding content_addrs_set by blast
qed

lemma laddrs_mutate:
  "set (laddrs (mutate a c t)) \<subseteq> set (laddrs t) \<union> set (content_addrs c)"
proof (induction t)
  case (LAtom x)
  show ?case by simp
next
  case (LList b xs)
  then show ?case by auto
next
  case (LDict b kvs)
  show ?case
  proof (cases "a = b")
    case True
    then show ?thesis by (simp add: laddrs_dict del: laddrs.simps) blast
  next
    case False
    have "set (content_addrs (map (\<lambda>(k, v). (k, mutate a c v)) kvs))
        \<subseteq> set (content_addrs kvs) \<union> set (content_addrs c)"
    proof (rule content_addrs_map_mutate)
      fix v assume "v \<in> snd ` set kvs"
      then obtain p where "p \<in> set kvs" "v \<in> Basic_BNFs.snds p" by force
      with LDict.IH show "set (laddrs (mutate a c v)) \<subseteq> set (laddrs v) \<union> set (content_addrs c)"
        by blast
    qed
    with False show ?thesis by (simp add: laddrs_dict del: laddrs.simps) blast
  qed
qed

lemma apply_muts_id:
  "\<forall>(a, c)\<in>set ms. a \<notin> set (laddrs t) \<Longrightarrow> apply_muts ms t = t"
  by (induction ms arbitrary: t) (auto simp: mutate_id)

lemma laddrs_apply_muts:
  "set (laddrs (apply_muts ms t)) \<subseteq> set (laddrs t) \<union> muts_addrs ms"
proof (induction ms arbitrary: t)
  case Nil
  show ?case by simp
next
  case (Cons m ms)
  obtain a c where m: "m = (a, c)" by (cases m)
  have "set (laddrs (apply_muts ms (mutate a c t))) \<subseteq> set (laddrs (mutate a c t)) \<union> muts_addrs ms"
    by (rule Cons.IH)
  also have "\<dots> \<subseteq> set (laddrs t) \<union> set (content_addrs c) \<union> muts_addrs ms"
    using laddrs_mutate [of a c t] by blast
  finally show ?case using m by (auto simp: muts_addrs_def)
qed

lemma map_of_laddrs:
  "map_of kvs k = Some child \<Longrightarrow> set (laddrs child) \<subseteq> set (content_addrs kvs)"
  unfolding content_addrs_set by (force dest!: map_of_SomeD)

lemma content_addrs_dict_set:
  "set (content_addrs (dict_set kvs k v)) \<subseteq> set (content_addrs kvs) \<union> set (laddrs v)"
proof (induction kvs)
  case Nil
  show ?case by (simp add: content_addrs_def)
next
  case (Cons p kvs)
  obtain k' v' where p: "p = (k', v')" by (cases p)
  show ?case using Cons.IH unfolding p by (auto simp: content_addrs_def)
qed

lemma content_addrs_append:
  "set (content_addrs (kvs @ [(k, v)])) = set (content_addrs kvs) \<union> set (laddrs v)"
  by (simp add: content_addrs_def)

lemma set_nested_props:
  "set_nested cur parts v n = (ms, n', err) \<Longrightarrow>
   n \<le> n' \<and>
   (\<forall>(a, c)\<in>set ms.
      (a \<in> set (laddrs cur) \<or> n \<le> a) \<and>
      set (content_addrs c) \<subseteq> set (laddrs cur) \<union> set (laddrs v) \<union> {x. n \<le> x})"
proof (induction cur parts v n arbitrary: ms n' err rule: set_nested.induct)
  case (1 a kvs part v n)
  then have ms: "ms = [(a, dict_set kvs part v)]" and n: "n' = n" by auto
  show ?case unfolding ms n using content_addrs_dict_set [of kvs part v]
    by (simp add: laddrs_dict del: laddrs.simps) blast
next
  case (2 a kvs part p ps v n)
  show ?case
  proof (cases "map_of kvs part")
    case (Some child)
    with 2 have eq: "set_nested child (p # ps) v n = (ms, n', err)" by simp
    from "2.IH"(2) [OF Some eq] map_of_laddrs [OF Some]
    show ?thesis by (simp add: laddrs_dict del: laddrs.simps) blast
  next
    case None
    obtain ms1 n1 err1 where r: "set_nested (LDict n []) (p # ps) v (Suc n) = (ms1, n1, err1)"
      by (cases "set_nested (LDict n []) (p # ps) v (Suc n)") auto
    with None 2 have ms: "ms = (a, kvs @ [(part, LDict n [])]) # ms1" and n': "n' = n1"
      by auto
    from "2.IH"(1) [OF None r]
    have ih1: "Suc n \<le> n1" and ih2: "\<forall>(a, c)\<in>set ms1.
      (a = n \<or> Suc n \<le> a) \<and> set (content_addrs c) \<subseteq> {n} \<union> set (laddrs v) \<union> {x. Suc n \<le> x}"
      by (auto simp: content_addrs_def)
    have hd: "set (content_addrs (kvs @ [(part, LDict n [])])) \<subseteq>
        set (laddrs (LDict a kvs)) \<union> set (laddrs v) \<union> {x. n \<le> x}"
      by (simp add: content_addrs_append laddrs_dict content_addrs_def del: laddrs.simps) blast
    have tl: "\<forall>(b, c)\<in>set ms1. (b \<in> set (laddrs (LDict a kvs)) \<or> n \<le> b) \<and>
        set (content_addrs c) \<subseteq> set (laddrs (LDict a kvs)) \<union> set (laddrs v) \<union> {x. n \<le> x}"
    proof (clarify, intro conjI)
      fix b c assume bc: "(b, c) \<in> set ms1"
      with ih2 have 1: "b = n \<or> Suc n \<le> b"
        and 2: "set (content_addrs c) \<subseteq> {n} \<union> set (laddrs v) \<union> {x. Suc n \<le> x}" by auto
      from 1 show "b \<in> set (laddrs (LDict a kvs)) \<or> n \<le> b" by auto
      from 2 show "set (content_addrs c) \<subseteq> set (laddrs (LDict a kvs)) \<union> set (laddrs v) \<union> {x. n \<le> x}"
        by auto
    qed
    have a_in: "a \<in> set (laddrs (LDict a kvs))" by simp
    from ih1 hd tl a_in show ?thesis unfolding ms n' by (simp del: laddrs.simps)
  qed
qed auto

lemma set_nested_remedy_ok:
  assumes "set_nested w parts v n = (ms, n', err)" and "set (laddrs v) \<subseteq> F"
  shows "remedy_ok w F n (w, r', ms, n', err')"
  using set_nested_props [OF assms(1)] assms(2)
  by (fastforce simp: remedy_ok_def)

lemma remedy_ok_id: "remedy_ok w F n (w, r, [], n, None)"
  by (simp add: remedy_ok_def)

lemma truncate_root_ok: "remedy_ok w F n (truncate_root w g r tt n)"
  by (auto simp: remedy_ok_def truncate_root_def split: lval.splits atom.splits)

lemma apply_truncate_ok: "remedy_ok w F n (apply_truncate w g r n)"
proof (cases "truncate_to g")
  case None
  then show ?thesis by (simp add: apply_truncate_def remedy_ok_id)
next
  case (Some tt)
  show ?thesis
  proof (cases "extract_field_from_rule (rule g) ''output.''")
    case None
    with Some show ?thesis by (simp add: apply_truncate_def truncate_root_ok)
  next
    case (Some field_path)
    note fp = this
    show ?thesis
    proof (cases w)
      case (LDict a kvs)
      show ?thesis
      proof (cases "get_nested w (py_split (CHR ''.'') field_path)")
        case (LAtom x)
        show ?thesis
        proof (cases x)
          case (AStr s)
          obtain ms n' err where sn: "set_nested w (py_split (CHR ''.'') field_path)
              (LAtom (AStr (slice_to s tt @ suffix g))) n = (ms, n', err)"
            by (cases "set_nested w (py_split (CHR ''.'') field_path)
              (LAtom (AStr (slice_to s tt @ suffix g))) n") auto
          have ok: "remedy_ok w F n (w, r', ms, n', err')" for r' err'
            by (rule set_nested_remedy_ok [OF sn]) simp
          from \<open>truncate_to g = Some tt\<close> fp LDict LAtom AStr sn ok show ?thesis
            by (cases err) (simp_all add: apply_truncate_def)
        qed (use \<open>truncate_to g = Some tt\<close> fp LDict LAtom in
              \<open>simp_all add: apply_truncate_def remedy_ok_id\<close>)
      qed (use \<open>truncate_to g = Some tt\<close> fp LDict in
              \<open>simp_all add: apply_truncate_def remedy_ok_id\<close>)
    qed (use \<open>truncate_to g = Some tt\<close> fp truncate_root_ok [of w F n g r tt] in
              \<open>simp_all add: apply_truncate_def\<close>)
  qed
qed

lemma fallback_root_ok:
  "set (laddrs (fallback_value g)) \<subseteq> F \<Longrightarrow> remedy_ok w F n (fallback_root w g r n)"
  by (auto simp: remedy_ok_def fallback_root_def)

lemma apply_fallback_ok:
  assumes "set (laddrs (fallback_value g)) \<subseteq> F"
  shows "remedy_ok w F n (apply_fallback w g r n)"
proof (cases "extract_field_from_rule (rule g) ''output.''")
  case None
  then show ?thesis by (simp add: apply_fallback_def fallback_root_ok [OF assms])
next
  case (Some field_path)
  show ?thesis
  proof (cases w)
    case (LDict a kvs)
    obtain ms n' err where sn: "set_nested w (py_split (CHR ''.'') field_path)
        (fallback_value g) n = (ms, n', err)"
      by (cases "set_nested w (py_split (CHR ''.'') field_path) (fallback_value g) n") auto
    from Some LDict sn set_nested_remedy_ok [OF sn assms] show ?thesis
      by (simp add: apply_fallback_def)
  qed (use Some fallback_root_ok [OF assms, of w n r] in \<open>simp_all add: apply_fallback_def\<close>)
qed

lemma separate_record: "separate (record_result r st) gs = separate st gs"
  by (simp add: separate_def record_result_def)

lemma caller_record: "caller_output (record_result r st) = caller_output st"
  by (simp add: record_result_def)

lemma separate_tail: "separate st (g # gs) \<Longrightarrow> separate st gs"
  by (simp add: separate_def)

lemma after_remedy_separate:
  assumes sep: "separate st (g # gs)"
    and ok: "remedy_ok (modified_output st) (set (laddrs (fallback_value g))) (next_addr st) rem"
  shows "caller_output (after_remedy rem st) = caller_output st
     \<and> separate (after_remedy rem st) (map (muts_guardrail (remedy_muts rem)) gs)"
proof -
  obtain w' r' ms n' err where rem: "rem = (w', r', ms, n', err)" by (cases rem) auto
  let ?A = "set (laddrs (caller_output st))"
  let ?w = "modified_output st"
  let ?F = "set (laddrs (fallback_value g))"
  from sep have wA: "set (laddrs ?w) \<inter> ?A = {}" and FA: "?F \<inter> ?A = {}"
    and gsA: "\<forall>g'\<in>set gs. set (laddrs (fallback_value g')) \<inter> ?A = {}"
    and nA: "\<forall>a\<in>?A. a < next_addr st"
    by (auto simp: separate_def)
  from ok rem have n: "next_addr st \<le> n'"
    and w': "set (laddrs w') \<subseteq> set (laddrs ?w) \<union> ?F"
    and ms: "\<forall>(a, c)\<in>set ms. (a \<in> set (laddrs ?w) \<or> next_addr st \<le> a) \<and>
             set (content_addrs c) \<subseteq> set (laddrs ?w) \<union> ?F \<union> {x. next_addr st \<le> x}"
    by (auto simp: remedy_ok_def)
  have notA: "\<forall>(a, c)\<in>set ms. a \<notin> ?A"
  proof (clarify)
    fix a c assume ac: "(a, c) \<in> set ms" and aA: "a \<in> ?A"
    from ms ac have "a \<in> set (laddrs ?w) \<or> next_addr st \<le> a" by auto
    with wA nA aA show False by fastforce
  qed
  have mA: "muts_addrs ms \<inter> ?A = {}"
  proof -
    have "x \<notin> ?A" if "x \<in> muts_addrs ms" for x
    proof -
      from that obtain a c where ac: "(a, c) \<in> set ms" and x: "x \<in> set (content_addrs c)"
        by (auto simp: muts_addrs_def)
      from ms ac x have "x \<in> set (laddrs ?w) \<union> ?F \<union> {x. next_addr st \<le> x}" by blast
      with wA FA nA show ?thesis by fastforce
    qed
    then show ?thesis by blast
  qed
  have c: "caller_output (after_remedy rem st) = caller_output st"
    using apply_muts_id [OF notA]
    by (simp add: after_remedy_def rem muts_state_def record_result_def)
  have m: "modified_output (after_remedy rem st) = apply_muts ms w'"
    by (simp add: after_remedy_def rem muts_state_def record_result_def)
  have nx: "next_addr (after_remedy rem st) = n'"
    by (simp add: after_remedy_def rem muts_state_def record_result_def)
  have s1: "set (laddrs (apply_muts ms w')) \<inter> ?A = {}"
    using laddrs_apply_muts [of ms w'] w' wA FA mA by blast
  have s2: "set (laddrs (fallback_value g')) \<inter> ?A = {}"
    if "g' \<in> set (map (muts_guardrail (remedy_muts rem)) gs)" for g'
  proof -
    from that obtain g0 where g0: "g0 \<in> set gs" and g': "g' = muts_guardrail ms g0"
      by (auto simp: remedy_muts_def rem)
    have "set (laddrs (fallback_value g')) \<subseteq> set (laddrs (fallback_value g0)) \<union> muts_addrs ms"
      unfolding g' using laddrs_apply_muts [of ms "fallback_value g0"]
      by (simp add: muts_guardrail_def)
    with gsA g0 mA show ?thesis by blast
  qed
  have s3: "\<forall>a\<in>?A. a < n'" using nA n by fastforce
  from c m nx s1 s2 s3 show ?thesis by (simp add: separate_def)
qed

lemma check_output_loop_caller:
  "separate st gs \<Longrightarrow>
   caller_output (snd (check_output_loop reg rt fo req gs st)) = caller_output st"
proof (induction gs arbitrary: st rule: length_induct)
  case (1 gs)
  note IH = "1.IH" and sep = "1.prems"
  show ?case
  proof (cases gs)
    case Nil
    then show ?thesis by simp
  next
    case (Cons g gs')
    have tl: "caller_output (snd (check_output_loop reg rt fo req gs' st')) = caller_output st'"
      if "separate st' gs'" for st'
      using IH that Cons by simp
    have sep': "separate st gs'" using sep Cons separate_tail by blast
    have rec: "caller_output (snd (check_output_loop reg rt fo req gs' (record_result r st)))
        = caller_output st" for r
    proof -
      have "separate (record_result r st) gs'" using sep' by (simp add: separate_record)
      then have "caller_output (snd (check_output_loop reg rt fo req gs' (record_result r st)))
          = caller_output (record_result r st)" by (rule tl)
      also have "\<dots> = caller_output st" by (simp add: record_result_def)
      finally show ?thesis .
    qed
    have rem: "caller_output (snd (case remedy_error rem of
          Some err \<Rightarrow> (Some (Raised err), after_remedy rem st)
        | None \<Rightarrow> check_output_loop reg rt fo req (map (muts_guardrail (remedy_muts rem)) gs')
                    (after_remedy rem st))) = caller_output st"
      if "remedy_ok (modified_output st) (set (laddrs (fallback_value g))) (next_addr st) rem"
      for rem
    proof -
      from sep Cons have "separate st (g # gs')" by simp
      from after_remedy_separate [OF this that]
      have c: "caller_output (after_remedy rem st) = caller_output st"
        and s: "separate (after_remedy rem st) (map (muts_guardrail (remedy_muts rem)) gs')"
        by auto
      have "caller_output (snd (check_output_loop reg rt fo req
              (map (muts_guardrail (remedy_muts rem)) gs') (after_remedy rem st)))
            = caller_output (after_remedy rem st)"
        using IH s Cons by simp
      with c show ?thesis by (cases "remedy_error rem") simp_all
    qed
    show ?thesis
      unfolding Cons
      using tl [OF sep'] rec rem [OF apply_truncate_ok] rem [OF apply_fallback_ok [OF subset_refl]]
        caller_record
      by (simp split: sum.splits)
  qed
qed

subsection \<open>The deep copy and the results\<close>

lemma erase_deepcopy: "erase (deepcopy base t) = erase t"
proof (induction t)
  case (LAtom x)
  show ?case by simp
next
  case (LList a xs)
  then show ?case by (simp cong: map_cong)
next
  case (LDict a kvs)
  have "map ((\<lambda>(k, v). (k, erase v)) \<circ> (\<lambda>(k, v). (k, deepcopy base v))) kvs
      = map (\<lambda>(k, v). (k, erase v)) kvs"
  proof (rule map_cong [OF refl])
    fix p assume p: "p \<in> set kvs"
    obtain k v where kv: "p = (k, v)" by (cases p)
    with p LDict.IH have "erase (deepcopy base v) = erase v" by auto
    with kv show "((\<lambda>(k, v). (k, erase v)) \<circ> (\<lambda>(k, v). (k, deepcopy base v))) p
        = (case p of (k, v) \<Rightarrow> (k, erase v))" by simp
  qed
  then show ?case by simp
qed

lemma laddrs_deepcopy_ge: "a \<in> set (laddrs (deepcopy base t)) \<Longrightarrow> base \<le> a"
proof (induction t)
  case (LAtom x)
  then show ?case by simp
next
  case (LList b xs)
  then show ?case by auto
next
  case (LDict b kvs)
  then show ?case by fastforce
qed

lemma fold_max_ge: "m \<le> fold (\<lambda>a m. max (Suc a) m) xs m"
proof (induction xs arbitrary: m)
  case Nil
  show ?case by simp
next
  case (Cons x xs)
  have "m \<le> max (Suc x) m" by simp
  also have "\<dots> \<le> fold (\<lambda>a m. max (Suc a) m) xs (max (Suc x) m)" by (rule Cons.IH)
  finally show ?case by simp
qed

lemma fold_max_gt: "a \<in> set xs \<Longrightarrow> a < fold (\<lambda>a m. max (Suc a) m) xs m"
proof (induction xs arbitrary: m)
  case Nil
  then show ?case by simp
next
  case (Cons x xs)
  show ?case
  proof (cases "a = x")
    case True
    have "Suc x \<le> max (Suc x) m" by simp
    also have "\<dots> \<le> fold (\<lambda>a m. max (Suc a) m) xs (max (Suc x) m)" by (rule fold_max_ge)
    finally show ?thesis using True by simp
  next
    case False
    with Cons.prems have "a \<in> set xs" by simp
    from Cons.IH [OF this] show ?thesis by simp
  qed
qed

lemma bound_of_gt: "a \<in> set xs \<Longrightarrow> a < bound_of xs"
  by (simp add: bound_of_def fold_max_gt)

lemma muts_result_triggered: "triggered (muts_result ms r) = triggered r"
  by (simp add: muts_result_def)

lemma set_detail_triggered: "triggered (set_detail k v r) = triggered r"
  by (simp add: set_detail_def)

lemma apply_truncate_triggered:
  "triggered (remedy_result (apply_truncate w g r n)) = triggered r"
  by (auto simp: apply_truncate_def truncate_root_def remedy_result_def set_detail_triggered
      split: option.splits lval.splits atom.splits prod.splits)

lemma apply_fallback_triggered:
  "triggered (remedy_result (apply_fallback w g r n)) = triggered r"
  by (auto simp: apply_fallback_def fallback_root_def remedy_result_def set_detail_triggered
      split: option.splits lval.splits prod.splits)

lemma any_triggered_record:
  "any_triggered (record_result r st) = (any_triggered st \<or> triggered r)"
  by (auto simp: any_triggered_def record_result_def)

lemma any_triggered_after_remedy:
  "triggered (remedy_result rem) \<Longrightarrow> any_triggered (after_remedy rem st)"
  by (cases rem)
    (auto simp: any_triggered_def after_remedy_def muts_state_def record_result_def
      remedy_result_def list_ex_iff muts_result_triggered)

lemma any_triggered_after_remedy_mono:
  "any_triggered st \<Longrightarrow> any_triggered (after_remedy rem st)"
  by (cases rem)
    (auto simp: any_triggered_def after_remedy_def muts_state_def record_result_def
      list_ex_iff muts_result_triggered)

lemma modified_record: "modified_output (record_result r st) = modified_output st"
  by (simp add: record_result_def)

lemma check_output_loop_untriggered:
  "(any_triggered st \<longrightarrow> any_triggered (snd (check_output_loop reg rt fo req gs st)))
   \<and> (\<not> any_triggered (snd (check_output_loop reg rt fo req gs st))
        \<longrightarrow> modified_output (snd (check_output_loop reg rt fo req gs st)) = modified_output st)"
proof (induction gs arbitrary: st rule: length_induct)
  case (1 gs)
  note IH = "1.IH"
  show ?case
  proof (cases gs)
    case Nil
    then show ?thesis by simp
  next
    case (Cons g gs')
    have tl: "(any_triggered st' \<longrightarrow> any_triggered (snd (check_output_loop reg rt fo req gs'' st')))
       \<and> (\<not> any_triggered (snd (check_output_loop reg rt fo req gs'' st'))
            \<longrightarrow> modified_output (snd (check_output_loop reg rt fo req gs'' st')) = modified_output st')"
      if "length gs'' = length gs'" for st' gs''
      using IH that Cons by simp
    have rem: "any_triggered (snd (case remedy_error rem of
          Some err \<Rightarrow> (Some (Raised err), after_remedy rem st)
        | None \<Rightarrow> check_output_loop reg rt fo req (map (muts_guardrail (remedy_muts rem)) gs')
                    (after_remedy rem st)))"
      if "triggered (remedy_result rem)" for rem
      using any_triggered_after_remedy [OF that, of st]
        tl [of "map (muts_guardrail (remedy_muts rem)) gs'" "after_remedy rem st"]
      by (cases "remedy_error rem") simp_all
    show ?thesis
    proof (cases "enabled g")
      case False
      with Cons tl [of gs' st] show ?thesis by simp
    next
      case True
      show ?thesis
      proof (cases "evaluate_guardrail reg rt fo g (output_context req (modified_output st))")
        case (Inl err)
        with Cons True show ?thesis by simp
      next
        case (Inr r)
        show ?thesis
        proof (cases "triggered r")
          case False
          with Cons True Inr tl [of gs' "record_result r st"] show ?thesis
            by (simp add: any_triggered_record modified_record)
        next
          case trig: True
          have t1: "triggered (remedy_result (apply_truncate (modified_output st) g r (next_addr st)))"
            using trig by (simp add: apply_truncate_triggered)
          have t2: "triggered (remedy_result (apply_fallback (modified_output st) g r (next_addr st)))"
            using trig by (simp add: apply_fallback_triggered)
          have t3: "any_triggered (snd (check_output_loop reg rt fo req gs' (record_result r st)))"
            using tl [of gs' "record_result r st"] trig by (simp add: any_triggered_record)
          from Cons True Inr trig rem [OF t1] rem [OF t2] t3 show ?thesis
            by (simp add: any_triggered_record)
        qed
      qed
    qed
  qed
qed

subsection \<open>Remediation at the root\<close>

text \<open>
  Claim C1, as the code has it. For a guardrail whose rule text holds no field path
  after \<open>output.\<close>: truncation acts on the root only when the root is a string, which
  becomes its first \<open>truncate_to\<close> characters followed by the suffix, and leaves any
  other root and the result as they are; fallback replaces the root by the fallback
  value whatever the root is, and records the old root and the fallback value.
\<close>

theorem C1_root_remediation:
  "extract_field_from_rule (rule g) ''output.'' = None \<longrightarrow>
     (truncate_to g = Some tt \<longrightarrow>
        apply_truncate (LAtom (AStr s)) g r n =
          (LAtom (AStr (slice_to s tt @ suffix g)),
           set_detail ''truncated_to'' (LAtom (AInt tt))
             (set_detail ''original_length'' (LAtom (AInt (int (length s)))) r),
           [], n, None)
        \<and> (\<not> is_string_root out \<longrightarrow> apply_truncate out g r n = (out, r, [], n, None)))
     \<and> apply_fallback out g r n =
          (fallback_value g,
           set_detail ''fallback_value'' (fallback_value g) (set_detail ''original_value'' out r),
           [], n, None)"
  by (cases out rule: is_string_root.cases)
    (simp_all add: apply_truncate_def truncate_root_def apply_fallback_def fallback_root_def)

theorem C1_root_remediation_witness:
  "extract_field_from_rule
      (rule ((example_guardrail ''g'' ''output'' ''max_length(output, 3)'' ''truncate'')
               \<lparr>truncate_to := Some 3\<rparr>)) ''output.'' = None
   \<and> truncate_to ((example_guardrail ''g'' ''output'' ''max_length(output, 3)'' ''truncate'')
               \<lparr>truncate_to := Some 3\<rparr>) = Some 3
   \<and> \<not> is_string_root (LDict 0 [])
   \<and> apply_truncate (LAtom (AStr ''abcdef''))
        ((example_guardrail ''g'' ''output'' ''max_length(output, 3)'' ''truncate'')
               \<lparr>truncate_to := Some 3\<rparr>) example_result 1
       = (LAtom (AStr ''abc...''),
          set_detail ''truncated_to'' (LAtom (AInt 3))
            (set_detail ''original_length'' (LAtom (AInt 6)) example_result),
          [], 1, None)
   \<and> apply_truncate (LDict 0 [])
        ((example_guardrail ''g'' ''output'' ''max_length(output, 3)'' ''truncate'')
               \<lparr>truncate_to := Some 3\<rparr>) example_result 1
       = (LDict 0 [], example_result, [], 1, None)"
proof -
  let ?g = "(example_guardrail ''g'' ''output'' ''max_length(output, 3)'' ''truncate'')
               \<lparr>truncate_to := Some 3\<rparr>"
  have h1: "extract_field_from_rule (rule ?g) ''output.'' = None" by code_simp
  have h2: "truncate_to ?g = Some 3" by (simp add: example_guardrail_def)
  have h3: "\<not> is_string_root (LDict 0 [])" by simp
  have s: "slice_to ''abcdef'' 3 @ suffix ?g = ''abc...''" by code_simp
  from C1_root_remediation [of ?g 3 "''abcdef''" example_result 1 "LDict 0 []"] h1 h2 h3 s
  show ?thesis by simp
qed

text \<open>
  The claim as stated fails for fallback: the rule \<open>valid_enum(output, [1])\<close> holds no
  field path, the root is a dict, and the output returned is the fallback value, not
  the dict.
\<close>

theorem C1_fallback_replaces_dict_counterexample:
  "extract_field_from_rule ''valid_enum(output, [1])'' ''output.'' = None
   \<and> \<not> is_string_root (LDict 0 [(''status'', LAtom (AStr ''bad''))])
   \<and> fst (check_output (modelled_rules plain_runtime) plain_runtime
       (example_engine False
          [(example_guardrail ''fb'' ''output'' ''valid_enum(output, [1])'' ''fallback'')
             \<lparr>fallback_value := LAtom (AStr ''ok'')\<rparr>])
       ''test'' (PDict []) (LDict 0 [(''status'', LAtom (AStr ''bad''))]))
     = Inr (LAtom (AStr ''ok''),
         [\<lparr>res_name = ''fb'', res_stage = ''output'', res_threat = ''quality'',
           triggered = True, res_response = Some ''fallback'', message = None,
           details = [(''original_value'', LDict 1 [(''status'', LAtom (AStr ''bad''))]),
                      (''fallback_value'', LAtom (AStr ''ok''))]\<rparr>])"
  by code_simp

subsection \<open>The caller's output\<close>

text \<open>
  What holds of the deep copy. When the caller's output shares no object with the
  fallback values of the output guardrails, \<open>check_output\<close> leaves the caller's object
  graph as it was; and when no result that \<open>check_output\<close> returns is triggered, the
  output returned has the value of the output passed.
\<close>

lemma check_output_separate_unchanged:
  assumes "\<forall>g\<in>set (get_guardrails e ag ''output'').
      set (laddrs (fallback_value g)) \<inter> set (laddrs out) = {}"
  shows "fst (snd (check_output reg rt e ag req out)) = out"
proof -
  let ?base = "bound_of (laddrs out @ config_addrs (config e) @ summary_addrs (summary e))"
  let ?st0 = "\<lparr>caller_output = out, modified_output = deepcopy ?base out, out_results = [],
                 eng_config = config e, eng_summary = summary e,
                 next_addr = ?base + bound_of (laddrs out)\<rparr>"
  have lt: "a < ?base" if "a \<in> set (laddrs out)" for a
    using that by (intro bound_of_gt) simp
  have "separate ?st0 (get_guardrails e ag ''output'')"
    unfolding separate_def using assms lt laddrs_deepcopy_ge [of _ ?base out]
    by (fastforce simp: trans_less_add1)
  from check_output_loop_caller [OF this, of reg rt "fail_open e" req]
  show ?thesis by (auto simp: check_output_def Let_def split: prod.splits)
qed

lemma check_output_untriggered_equal:
  assumes "fst (check_output reg rt e ag req out) = Inr (out', rs)"
    and "list_all (\<lambda>r. \<not> triggered r) rs"
  shows "erase out' = erase out"
proof -
  let ?base = "bound_of (laddrs out @ config_addrs (config e) @ summary_addrs (summary e))"
  let ?st0 = "\<lparr>caller_output = out, modified_output = deepcopy ?base out, out_results = [],
                 eng_config = config e, eng_summary = summary e,
                 next_addr = ?base + bound_of (laddrs out)\<rparr>"
  let ?res = "check_output_loop reg rt (fail_open e) req (get_guardrails e ag ''output'') ?st0"
  from assms(1) have o: "modified_output (snd ?res) = out'" and r: "out_results (snd ?res) = rs"
    by (auto simp: check_output_def Let_def split: prod.splits option.splits)
  from assms(2) r have "\<not> any_triggered (snd ?res)"
    by (simp add: any_triggered_def list_ex_iff list_all_iff)
  with check_output_loop_untriggered [of ?st0 reg rt "fail_open e" req "get_guardrails e ag ''output''"]
  have "modified_output (snd ?res) = deepcopy ?base out" by simp
  with o have "out' = deepcopy ?base out" by simp
  then show ?thesis by (simp only: erase_deepcopy)
qed

text \<open>
  Claim C3 says that \<open>check_output\<close> never changes the object that the caller passed.
  The fallback remedy stores the configured fallback value itself, not a copy, in the
  working copy, and a later truncation assigns into it. An output that holds that
  object is therefore changed: here the caller's \<open>output["a"]["text"]\<close> goes from
  \<open>long text\<close> to \<open>lon...\<close>.
\<close>

theorem C3_caller_output_mutated_through_fallback:
  "fst (snd (check_output (modelled_rules plain_runtime) plain_runtime aliasing_engine ''test''
       (PDict []) (LDict 0 [(''a'', shared_fallback)])))
     = LDict 0 [(''a'', LDict 7 [(''text'', LAtom (AStr ''lon...''))])]"
  by code_simp

end
